theory Spec2Isabelle
  imports Complex_Main "HOL-Library.Multiset" "HOL-Library.Char_ord" "HOL-Library.List_Lexorder"
begin

section \<open>Player statistics from a table of chess games (csv\_to\_player\_stats.py)\<close>

text \<open>
  The script turns a table with one row per game into a table with one row per player.
  It is written against pandas; the embedding below models the pandas operations the
  script calls (group-by aggregation, value counts, merges with a fill of the gaps,
  column assignment, projection) on explicit tables, and then the functions of the
  script on top of them, one definition per source function.

  Floating-point numbers are idealised as real numbers, extended with the three special
  values a pandas float column can hold. Every numeric column of the game table is fully
  populated (type \<open>real\<close>); player identities are strings.
\<close>

subsection \<open>Numeric cells\<close>

datatype cell = Num real | PInf | NInf | NaN

fun cell_add :: "cell \<Rightarrow> cell \<Rightarrow> cell" where
  "cell_add (Num a) (Num b) = Num (a + b)"
| "cell_add NaN _ = NaN"
| "cell_add _ NaN = NaN"
| "cell_add PInf NInf = NaN"
| "cell_add NInf PInf = NaN"
| "cell_add PInf _ = PInf"
| "cell_add _ PInf = PInf"
| "cell_add NInf _ = NInf"
| "cell_add _ NInf = NInf"

text \<open>Float division never raises in pandas: a zero denominator gives an infinity or NaN.\<close>

fun cell_div :: "cell \<Rightarrow> cell \<Rightarrow> cell" where
  "cell_div (Num a) (Num b) =
     (if b \<noteq> 0 then Num (a / b) else if 0 < a then PInf else if a < 0 then NInf else NaN)"
| "cell_div NaN _ = NaN"
| "cell_div _ NaN = NaN"
| "cell_div (Num a) _ = Num 0"
| "cell_div PInf (Num b) = (if 0 \<le> b then PInf else NInf)"
| "cell_div NInf (Num b) = (if 0 \<le> b then NInf else PInf)"
| "cell_div _ _ = NaN"

text \<open>The comparison \<open>a > b\<close> of two floats; every comparison with NaN is false.\<close>

fun cell_gt :: "cell \<Rightarrow> cell \<Rightarrow> bool" where
  "cell_gt (Num a) (Num b) = (b < a)"
| "cell_gt NaN _ = False"
| "cell_gt _ NaN = False"
| "cell_gt PInf PInf = False"
| "cell_gt PInf _ = True"
| "cell_gt _ PInf = False"
| "cell_gt NInf _ = False"
| "cell_gt _ NInf = True"

text \<open>Python's \<open>max(a, b)\<close>: the second argument wins only when it is strictly greater.\<close>

definition py_max :: "cell \<Rightarrow> cell \<Rightarrow> cell" where
  "py_max a b = (if cell_gt b a then b else a)"

text \<open>Python's \<open>round(x, 0)\<close> on a float: to the nearest whole number, a tie to the even one.\<close>

definition round_half_even :: "real \<Rightarrow> real" where
  "round_half_even x =
     (let f = \<lfloor>x\<rfloor>; d = x - of_int f
      in if d < 1 / 2 then of_int f
         else if 1 / 2 < d then of_int (f + 1)
         else if even f then of_int f else of_int (f + 1))"

fun py_round :: "cell \<Rightarrow> cell" where
  "py_round (Num x) = Num (round_half_even x)"
| "py_round c = c"

text \<open>\<open>fillna(0)\<close> on one cell.\<close>

fun fill0 :: "cell \<Rightarrow> cell" where
  "fill0 NaN = Num 0"
| "fill0 c = c"

subsection \<open>Errors\<close>

datatype py_error = KeyError string | IndexError | SolverError | ReadError | WriteError

definition and_then :: "py_error + 'a \<Rightarrow> ('a \<Rightarrow> py_error + 'b) \<Rightarrow> py_error + 'b" where
  "and_then m f = (case m of Inl e \<Rightarrow> Inl e | Inr x \<Rightarrow> f x)"

fun mapM :: "('a \<Rightarrow> py_error + 'b) \<Rightarrow> 'a list \<Rightarrow> py_error + 'b list" where
  "mapM f [] = Inr []"
| "mapM f (x # xs) =
     (case f x of Inl e \<Rightarrow> Inl e
      | Inr y \<Rightarrow> (case mapM f xs of Inl e \<Rightarrow> Inl e | Inr ys \<Rightarrow> Inr (y # ys)))"

subsection \<open>The game table\<close>

record game =
  White :: string
  Black :: string
  WhiteElo :: real
  BlackElo :: real
  WhiteResult :: real
  BlackResult :: real
  white_move_number :: real
  black_move_number :: real
  white_gi :: real
  black_gi :: real
  white_gi_raw :: real
  black_gi_raw :: real
  white_gpl :: real
  black_gpl :: real
  white_acpl :: real
  black_acpl :: real

subsection \<open>Per-player tables\<close>

text \<open>
  A per-player table has a \<open>Player\<close> column, kept as the key of each row, and named numeric
  columns. A row maps a column name to its cell; only the names listed in \<open>columns\<close> are
  data, and every read of a column checks the name against that list.
\<close>

type_synonym row = "string \<Rightarrow> cell"

record frame =
  columns :: "string list"
  rows :: "(string \<times> row) list"

definition keys :: "frame \<Rightarrow> string list" where
  "keys df = map fst (rows df)"

definition nan_row :: row where
  "nan_row = (\<lambda>c. NaN)"

text \<open>\<open>df.groupby(col)\<close>: one group per distinct key, the keys sorted.\<close>

definition groupby :: "('g \<Rightarrow> string) \<Rightarrow> 'g list \<Rightarrow> (string \<times> 'g list) list" where
  "groupby key df = map (\<lambda>k. (k, filter (\<lambda>g. key g = k) df)) (sort (remdups (map key df)))"

text \<open>A group-by followed by one aggregation and \<open>reset_index\<close>, the value column named \<open>name\<close>.\<close>

definition groupby_agg :: "('g \<Rightarrow> string) \<Rightarrow> ('g list \<Rightarrow> cell) \<Rightarrow> string \<Rightarrow> 'g list \<Rightarrow> frame" where
  "groupby_agg key agg name df =
     \<lparr>columns = [name], rows = map (\<lambda>(k, g). (k, nan_row(name := agg g))) (groupby key df)\<rparr>"

text \<open>\<open>fillna(0)\<close> on a table.\<close>

definition fillna0 :: "frame \<Rightarrow> frame" where
  "fillna0 df = df\<lparr>rows := map (\<lambda>(k, r). (k, fill0 \<circ> r)) (rows df)\<rparr>"

text \<open>
  \<open>pd.merge(left, right, on='Player', how=...)\<close>. A column name the two tables share gets
  the suffix \<open>_x\<close> on the left and \<open>_y\<close> on the right. An outer merge has the union of the
  keys, sorted; a left and an inner merge keep the order of the left table. Rows with the
  same key on both sides are paired in all combinations.
\<close>

datatype how = Inner | LeftJoin | Outer

definition rename_overlap :: "string \<Rightarrow> string list \<Rightarrow> string \<Rightarrow> string" where
  "rename_overlap sfx others c = (if c \<in> set others then c @ sfx else c)"

definition merged_columns :: "frame \<Rightarrow> frame \<Rightarrow> string list" where
  "merged_columns L R =
     map (rename_overlap ''_x'' (columns R)) (columns L) @
     map (rename_overlap ''_y'' (columns L)) (columns R)"

definition combine :: "frame \<Rightarrow> frame \<Rightarrow> row \<Rightarrow> row \<Rightarrow> row" where
  "combine L R l r = (\<lambda>c.
     case find (\<lambda>c0. rename_overlap ''_x'' (columns R) c0 = c) (columns L) of
       Some c0 \<Rightarrow> l c0
     | None \<Rightarrow>
        (case find (\<lambda>c0. rename_overlap ''_y'' (columns L) c0 = c) (columns R) of
           Some c0 \<Rightarrow> r c0
         | None \<Rightarrow> NaN))"

definition matches :: "frame \<Rightarrow> string \<Rightarrow> row list" where
  "matches df k = map snd (filter (\<lambda>kr. fst kr = k) (rows df))"

definition join_key :: "frame \<Rightarrow> frame \<Rightarrow> string \<Rightarrow> (string \<times> row) list" where
  "join_key L R k =
     (let ls = matches L k; rs = matches R k
      in if ls = [] then map (\<lambda>r. (k, combine L R nan_row r)) rs
         else if rs = [] then map (\<lambda>l. (k, combine L R l nan_row)) ls
         else concat (map (\<lambda>l. map (\<lambda>r. (k, combine L R l r)) rs) ls))"

fun merge :: "how \<Rightarrow> frame \<Rightarrow> frame \<Rightarrow> frame" where
  "merge Outer L R =
     \<lparr>columns = merged_columns L R,
      rows = concat (map (join_key L R) (sort (remdups (keys L @ keys R))))\<rparr>"
| "merge LeftJoin L R =
     \<lparr>columns = merged_columns L R,
      rows = concat (map (\<lambda>(k, l).
               if matches R k = [] then [(k, combine L R l nan_row)]
               else map (\<lambda>r. (k, combine L R l r)) (matches R k)) (rows L))\<rparr>"
| "merge Inner L R =
     \<lparr>columns = merged_columns L R,
      rows = concat (map (\<lambda>(k, l). map (\<lambda>r. (k, combine L R l r)) (matches R k)) (rows L))\<rparr>"

text \<open>A column computed row by row from the row itself, added at the end or overwritten.\<close>

definition with_column :: "string \<Rightarrow> (row \<Rightarrow> cell) \<Rightarrow> frame \<Rightarrow> frame" where
  "with_column new g df =
     \<lparr>columns = (if new \<in> set (columns df) then columns df else columns df @ [new]),
      rows = map (\<lambda>(k, r). (k, r(new := g r))) (rows df)\<rparr>"

text \<open>\<open>df[new] = f(df[a], df[b])\<close>: a KeyError when a read column is absent.\<close>

definition assign2 :: "string \<Rightarrow> (cell \<Rightarrow> cell \<Rightarrow> cell) \<Rightarrow> string \<Rightarrow> string \<Rightarrow> frame \<Rightarrow> py_error + frame" where
  "assign2 new f a b df =
     (if a \<notin> set (columns df) then Inl (KeyError a)
      else if b \<notin> set (columns df) then Inl (KeyError b)
      else Inr (with_column new (\<lambda>r. f (r a) (r b)) df))"

text \<open>\<open>df[[Player, c1, ..., cn]]\<close>: a KeyError when a selected column is absent.\<close>

definition project :: "string list \<Rightarrow> frame \<Rightarrow> frame" where
  "project cs df =
     \<lparr>columns = cs,
      rows = map (\<lambda>(k, r). (k, (\<lambda>c. if c \<in> set cs then r c else NaN))) (rows df)\<rparr>"

definition select :: "string list \<Rightarrow> frame \<Rightarrow> py_error + frame" where
  "select cs df =
     (case find (\<lambda>c. c \<notin> set (columns df)) cs of
        Some c \<Rightarrow> Inl (KeyError c)
      | None \<Rightarrow> Inr (project cs df))"

subsection \<open>Aggregations\<close>

definition mean :: "real list \<Rightarrow> cell" where
  "mean xs = (if xs = [] then NaN else Num (sum_list xs / real (length xs)))"

definition median :: "real list \<Rightarrow> cell" where
  "median xs =
     (let s = sort xs; n = length xs
      in if n = 0 then NaN
         else if odd n then Num (s ! (n div 2))
         else Num ((s ! (n div 2 - 1) + s ! (n div 2)) / 2))"

text \<open>The sample variance (one delta degree of freedom): NaN for fewer than two observations.\<close>

definition var :: "real list \<Rightarrow> cell" where
  "var xs =
     (let n = length xs; m = sum_list xs / real n
      in if n \<le> 1 then NaN
         else Num (sum_list (map (\<lambda>x. (x - m) ^ 2) xs) / real (n - 1)))"

text \<open>The sample standard deviation: the square root of the variance.\<close>

definition std :: "real list \<Rightarrow> cell" where
  "std xs = (case var xs of Num v \<Rightarrow> Num (sqrt v) | c \<Rightarrow> c)"

text \<open>
  \<open>value_counts\<close>: the distinct values with their number of occurrences, the most frequent
  first. Every consumer of this table is an outer merge, which sorts by key again.
\<close>

definition value_counts :: "string list \<Rightarrow> (string \<times> nat) list" where
  "value_counts xs =
     sort_key (\<lambda>kn. - int (snd kn)) (map (\<lambda>k. (k, count_list xs k)) (rev (remdups (rev xs))))"

subsection \<open>The functions of the script\<close>

definition calculate_sum :: "game list \<Rightarrow> (game \<Rightarrow> string) \<Rightarrow> (game \<Rightarrow> real) \<Rightarrow> string \<Rightarrow> frame" where
  "calculate_sum df group_col value_col prefix =
     groupby_agg group_col (\<lambda>g. Num (sum_list (map value_col g))) (prefix @ ''_sum'') df"

definition calculate_games :: "game list \<Rightarrow> (game \<Rightarrow> string) \<Rightarrow> string \<Rightarrow> frame" where
  "calculate_games df player_col player_col_name =
     \<lparr>columns = [player_col_name @ ''_games''],
      rows = map (\<lambda>(k, n). (k, nan_row(player_col_name @ ''_games'' := Num (real n))))
                 (value_counts (map player_col df))\<rparr>"

definition calculate_total_games :: "frame \<Rightarrow> frame \<Rightarrow> py_error + frame" where
  "calculate_total_games white_games black_games =
     assign2 ''total_game_count'' cell_add ''White_games'' ''Black_games''
       (fillna0 (merge Outer white_games black_games))"

definition calculate_total_moves :: "game list \<Rightarrow> py_error + frame" where
  "calculate_total_moves df =
     (let white_moves = calculate_sum df White white_move_number ''white_move'';
          black_moves = calculate_sum df Black black_move_number ''black_move''
      in and_then (assign2 ''total_moves'' cell_add ''white_move_sum'' ''black_move_sum''
                     (fillna0 (merge Outer white_moves black_moves)))
           (select [''total_moves'']))"

text \<open>The pooled observations: one row per game and side.\<close>

record obs =
  Player :: string
  gi :: real
  gi_raw :: real
  gpl :: real
  acpl :: real

definition combined_df :: "game list \<Rightarrow> obs list" where
  "combined_df df =
     map (\<lambda>g. \<lparr>Player = White g, gi = white_gi g, gi_raw = white_gi_raw g,
                gpl = white_gpl g, acpl = white_acpl g\<rparr>) df @
     map (\<lambda>g. \<lparr>Player = Black g, gi = black_gi g, gi_raw = black_gi_raw g,
                gpl = black_gpl g, acpl = black_acpl g\<rparr>) df"

definition calculate_statistics :: "obs list \<Rightarrow> (obs \<Rightarrow> real) \<Rightarrow> string \<Rightarrow> frame" where
  "calculate_statistics df value_col value_col_name =
     \<lparr>columns = [value_col_name @ ''_median'', value_col_name @ ''_var'', value_col_name @ ''_std''],
      rows = map (\<lambda>(k, g). (k, nan_row
                 (value_col_name @ ''_median'' := median (map value_col g),
                  value_col_name @ ''_var'' := var (map value_col g),
                  value_col_name @ ''_std'' := std (map value_col g))))
               (groupby Player df)\<rparr>"

definition calculate_opponent_elo_sums :: "game list \<Rightarrow> py_error + frame" where
  "calculate_opponent_elo_sums df =
     (let white_opponent_elo_sum =
            groupby_agg White (\<lambda>g. Num (sum_list (map BlackElo g))) ''sum_opponent_elo'' df;
          black_opponent_elo_sum =
            groupby_agg Black (\<lambda>g. Num (sum_list (map WhiteElo g))) ''sum_opponent_elo'' df
      in and_then (assign2 ''sum_opponent_elo'' cell_add ''sum_opponent_elo_x'' ''sum_opponent_elo_y''
                     (fillna0 (merge Outer white_opponent_elo_sum black_opponent_elo_sum)))
           (select [''sum_opponent_elo'']))"

definition calculate_avg_opponent_elo :: "frame \<Rightarrow> frame \<Rightarrow> py_error + frame" where
  "calculate_avg_opponent_elo opponent_elo_sums total_games =
     and_then (select [''total_game_count''] total_games) (\<lambda>counts.
     and_then (assign2 ''avg_opponent_elo'' cell_div ''sum_opponent_elo'' ''total_game_count''
                 (merge Inner opponent_elo_sums counts))
       (select [''avg_opponent_elo'']))"

text \<open>The row-wise rule of \<open>calculate_average_elo\<close>.\<close>

definition elo_rule :: "cell \<Rightarrow> cell \<Rightarrow> cell" where
  "elo_rule avg_elo_white avg_elo_black =
     py_round (if cell_gt avg_elo_white (Num 0) \<and> cell_gt avg_elo_black (Num 0)
               then cell_div (cell_add avg_elo_white avg_elo_black) (Num 2)
               else py_max avg_elo_white avg_elo_black)"

definition elo_avg :: "game list \<Rightarrow> frame" where
  "elo_avg df =
     fillna0 (merge Outer
       (groupby_agg White (\<lambda>g. mean (map WhiteElo g)) ''avg_elo_white'' df)
       (groupby_agg Black (\<lambda>g. mean (map BlackElo g)) ''avg_elo_black'' df))"

definition calculate_average_elo :: "game list \<Rightarrow> py_error + frame" where
  "calculate_average_elo df =
     and_then (assign2 ''Elo'' elo_rule ''avg_elo_white'' ''avg_elo_black'' (elo_avg df))
       (select [''Elo''])"

text \<open>
  The rating solver (\<open>optimize_w\<close>, \<open>calculate_EPR\<close>) is an external module: both functions
  are parameters here, and either may fail, which aborts the run.
\<close>

type_synonym solver = "(cell \<Rightarrow> cell \<Rightarrow> real \<Rightarrow> py_error + cell) \<times> (cell \<Rightarrow> cell \<Rightarrow> py_error + cell)"

definition assign_apply :: "string \<Rightarrow> string list \<Rightarrow> (row \<Rightarrow> py_error + cell) \<Rightarrow> frame \<Rightarrow> py_error + frame" where
  "assign_apply new reads f df =
     (case find (\<lambda>c. c \<notin> set (columns df)) reads of
        Some c \<Rightarrow> Inl (KeyError c)
      | None \<Rightarrow>
         and_then (mapM (\<lambda>(k, r). and_then (f r) (\<lambda>v. Inr (k, r(new := v)))) (rows df))
           (\<lambda>rs. Inr \<lparr>columns = (if new \<in> set (columns df) then columns df else columns df @ [new]),
                      rows = rs\<rparr>))"

definition calculate_tpr :: "solver \<Rightarrow> frame \<Rightarrow> py_error + frame" where
  "calculate_tpr sv player_stats =
     (let threshold_prob = 0.75
      in and_then (assign_apply ''w_star'' [''Points'', ''total_game_count'']
                     (\<lambda>r. fst sv (r ''Points'') (r ''total_game_count'') threshold_prob) player_stats)
           (assign_apply ''TPR'' [''w_star'', ''avg_opponent_elo'']
              (\<lambda>r. and_then (snd sv (r ''w_star'') (r ''avg_opponent_elo'')) (\<lambda>v. Inr (py_round v)))))"

text \<open>The first table as it is; every further one merged in, the gaps filled with zero.\<close>

fun merge_dataframes :: "frame list \<Rightarrow> py_error + frame" where
  "merge_dataframes [] = Inl IndexError"
| "merge_dataframes (d # dfs) = Inr (foldl (\<lambda>merged_df df. fillna0 (merge Outer merged_df df)) d dfs)"

definition calculate_averages :: "frame \<Rightarrow> py_error + frame" where
  "calculate_averages player_stats =
     and_then (assign2 ''avg_gi'' cell_div ''total_gi_sum'' ''total_game_count'' player_stats) (\<lambda>ps.
     and_then (assign2 ''avg_gi_raw'' cell_div ''total_gi_raw_sum'' ''total_game_count'' ps) (\<lambda>ps.
     and_then (assign2 ''avg_gpl'' cell_div ''total_gpl_sum'' ''total_game_count'' ps) (\<lambda>ps.
     assign2 ''avg_acpl'' cell_div ''total_acpl_sum'' ''total_game_count'' ps)))"

subsection \<open>The pipeline of \<open>main_stats\<close>\<close>

text \<open>Lines 120 to 130: the ten per-colour sums, in the order of the list \<open>sums\<close>.\<close>

definition sum_tables :: "game list \<Rightarrow> frame list" where
  "sum_tables df =
     [calculate_sum df White white_gi ''white_gi'',
      calculate_sum df Black black_gi ''black_gi'',
      calculate_sum df White white_gi_raw ''white_gi_raw'',
      calculate_sum df Black black_gi_raw ''black_gi_raw'',
      calculate_sum df White white_gpl ''white_gpl'',
      calculate_sum df Black black_gpl ''black_gpl'',
      calculate_sum df White white_acpl ''white_acpl'',
      calculate_sum df Black black_acpl ''black_acpl'',
      calculate_sum df White WhiteResult ''white_result'',
      calculate_sum df Black BlackResult ''black_result'']"

text \<open>Lines 133 to 135.\<close>

definition total_games :: "game list \<Rightarrow> py_error + frame" where
  "total_games df =
     calculate_total_games (calculate_games df White ''White'') (calculate_games df Black ''Black'')"

text \<open>Lines 136 and 149 to 155: the joined sums and counts, with the totals added.\<close>

definition total_sums :: "game list \<Rightarrow> py_error + frame" where
  "total_sums df =
     and_then (total_games df) (\<lambda>tg.
     and_then (calculate_total_moves df) (\<lambda>total_moves.
     and_then (merge_dataframes (sum_tables df @ [tg, total_moves])) (\<lambda>ts.
     and_then (assign2 ''total_gi_sum'' cell_add ''white_gi_sum'' ''black_gi_sum'' ts) (\<lambda>ts.
     and_then (assign2 ''total_gi_raw_sum'' cell_add ''white_gi_raw_sum'' ''black_gi_raw_sum'' ts) (\<lambda>ts.
     and_then (assign2 ''total_gpl_sum'' cell_add ''white_gpl_sum'' ''black_gpl_sum'' ts) (\<lambda>ts.
     and_then (assign2 ''total_acpl_sum'' cell_add ''white_acpl_sum'' ''black_acpl_sum'' ts) (\<lambda>ts.
     assign2 ''Points'' cell_add ''white_result_sum'' ''black_result_sum'' ts)))))))"

text \<open>Lines 143 to 146.\<close>

definition stats :: "game list \<Rightarrow> frame list" where
  "stats df =
     [calculate_statistics (combined_df df) gi ''gi'',
      calculate_statistics (combined_df df) gi_raw ''gi_raw'',
      calculate_statistics (combined_df df) gpl ''gpl'',
      calculate_statistics (combined_df df) acpl ''acpl'']"

text \<open>Lines 157 and 160: the wide table with the dispersion statistics and the averages.\<close>

definition averaged :: "game list \<Rightarrow> py_error + frame" where
  "averaged df =
     and_then (total_sums df) (\<lambda>ts.
     and_then (merge_dataframes (ts # stats df)) calculate_averages)"

text \<open>Lines 163 and 164.\<close>

definition avg_opponent_elo :: "game list \<Rightarrow> py_error + frame" where
  "avg_opponent_elo df =
     and_then (calculate_opponent_elo_sums df) (\<lambda>opponent_elo_sums.
     and_then (total_games df) (calculate_avg_opponent_elo opponent_elo_sums))"

text \<open>Lines 157 to 176: the table before the projection.\<close>

definition player_stats_wide :: "solver \<Rightarrow> game list \<Rightarrow> py_error + frame" where
  "player_stats_wide sv df =
     and_then (averaged df) (\<lambda>ps.
     and_then (avg_opponent_elo df) (\<lambda>aoe.
     and_then (calculate_tpr sv (merge LeftJoin ps aoe)) (\<lambda>ps.
     and_then (calculate_average_elo df) (\<lambda>average_elo.
     Inr (merge LeftJoin ps average_elo)))))"

definition columns_to_include :: "string list" where
  "columns_to_include =
     [''avg_gi'', ''avg_gpl'', ''avg_acpl'', ''total_game_count'', ''Points'', ''Elo'', ''TPR'',
      ''total_moves'', ''White_games'', ''Black_games'', ''gi_median'', ''gpl_median'',
      ''acpl_median'', ''gi_std'', ''gpl_std'', ''acpl_std'', ''avg_gi_raw'', ''white_gpl_sum'',
      ''black_gpl_sum'', ''white_acpl_sum'', ''black_acpl_sum'', ''white_result_sum'',
      ''black_result_sum'', ''total_gpl_sum'', ''gi_var'', ''gi_raw_median'', ''gi_raw_var'',
      ''gi_raw_std'', ''gpl_var'', ''acpl_var'']"

text \<open>Line 180: the projection on the output columns (\<open>Player\<close> is the key of each row).\<close>

definition player_stats :: "solver \<Rightarrow> game list \<Rightarrow> py_error + frame" where
  "player_stats sv df = and_then (player_stats_wide sv df) (select columns_to_include)"

text \<open>
  Line 190: \<open>sort_values(by='avg_gi', ascending=False)\<close> with the default sorting kind,
  quicksort, for which pandas promises no order among equal keys. The call is therefore
  modelled by what it guarantees of its result: the same rows, the sort column
  non-increasing, NaN last.
\<close>

definition desc_ok :: "cell \<Rightarrow> cell \<Rightarrow> bool" where
  "desc_ok x y \<longleftrightarrow> y = NaN \<or> (x \<noteq> NaN \<and> \<not> cell_gt y x)"

definition sort_values_desc :: "string \<Rightarrow> frame \<Rightarrow> frame \<Rightarrow> bool" where
  "sort_values_desc c df out \<longleftrightarrow>
     columns out = columns df \<and> mset (rows out) = mset (rows df) \<and>
     sorted_wrt (\<lambda>a b. desc_ok (snd a c) (snd b c)) (rows out)"

subsection \<open>Files and the run\<close>

text \<open>
  The file system maps a path to a directory, a table of games, a written table of player
  statistics or some other file; \<open>stdout\<close> collects the printed lines.
\<close>

datatype node = Directory | GamesCsv "game list" | StatsCsv frame | OtherFile

record world =
  files :: "string \<Rightarrow> node option"
  stdout :: "string list"

datatype outcome = Returned world | Raised py_error world

definition os_path_join :: "string \<Rightarrow> string \<Rightarrow> string" where
  "os_path_join a b = (if a = [] then b else if last a = CHR ''/'' then a @ b else a @ ''/'' @ b)"

text \<open>Lines 183 and 184: the output directory is created when nothing exists at its path.\<close>

definition ensure_dir :: "string \<Rightarrow> world \<Rightarrow> world" where
  "ensure_dir d w = (if files w d = None then w\<lparr>files := (files w)(d \<mapsto> Directory)\<rparr> else w)"

text \<open>
  \<open>main_stats\<close>, lines 112 to 191. A missing input is reported and the run returns; a
  path that holds something else than a table of games makes the run raise before anything
  is computed; a failure of the pipeline is raised before anything is written; otherwise
  the sorted table is written to \<open>player_stats.csv\<close> in the output directory. Paths are
  opaque names: creating a directory adds one entry.
\<close>

inductive main_stats :: "solver \<Rightarrow> string \<Rightarrow> string \<Rightarrow> world \<Rightarrow> outcome \<Rightarrow> bool" where
  missing:
    "files w csv_all_games_path = None \<Longrightarrow>
     main_stats sv csv_all_games_path player_stats_output_dir w
       (Returned (w\<lparr>stdout := stdout w @ [''File not found: '' @ csv_all_games_path]\<rparr>))"
| unreadable:
    "files w csv_all_games_path = Some n \<Longrightarrow> (\<And>df. n \<noteq> GamesCsv df) \<Longrightarrow>
     main_stats sv csv_all_games_path player_stats_output_dir w (Raised ReadError w)"
| failed:
    "files w csv_all_games_path = Some (GamesCsv df) \<Longrightarrow> player_stats sv df = Inl e \<Longrightarrow>
     main_stats sv csv_all_games_path player_stats_output_dir w (Raised e w)"
| unwritable:
    "files w csv_all_games_path = Some (GamesCsv df) \<Longrightarrow> player_stats sv df = Inr ps \<Longrightarrow>
     w' = ensure_dir player_stats_output_dir w \<Longrightarrow>
     files w' player_stats_output_dir \<noteq> Some Directory \<or>
       files w' (os_path_join player_stats_output_dir ''player_stats.csv'') = Some Directory \<Longrightarrow>
     main_stats sv csv_all_games_path player_stats_output_dir w (Raised WriteError w')"
| saved:
    "files w csv_all_games_path = Some (GamesCsv df) \<Longrightarrow> player_stats sv df = Inr ps \<Longrightarrow>
     w' = ensure_dir player_stats_output_dir w \<Longrightarrow>
     files w' player_stats_output_dir = Some Directory \<Longrightarrow>
     files w' (os_path_join player_stats_output_dir ''player_stats.csv'') \<noteq> Some Directory \<Longrightarrow>
     sort_values_desc ''avg_gi'' ps out \<Longrightarrow>
     main_stats sv csv_all_games_path player_stats_output_dir w
       (Returned (w'\<lparr>files := (files w')(os_path_join player_stats_output_dir ''player_stats.csv''
                                             \<mapsto> StatsCsv out)\<rparr>))"

subsection \<open>Auxiliary notions for the proofs\<close>

text \<open>
  The cell of a player and a column in a table (NaN when the player has no row), the games
  of a player by colour, the intermediate tables of \<open>main_stats\<close> under the names of its
  local variables, and the example inputs on which the theorems below are instantiated.
\<close>

definition row_at :: "frame \<Rightarrow> string \<Rightarrow> row" where
  "row_at df p = (case map_of (rows df) p of Some r \<Rightarrow> r | None \<Rightarrow> nan_row)"

definition as_white :: "game list \<Rightarrow> string \<Rightarrow> game list" where
  "as_white df p = filter (\<lambda>g. White g = p) df"

definition as_black :: "game list \<Rightarrow> string \<Rightarrow> game list" where
  "as_black df p = filter (\<lambda>g. Black g = p) df"

definition players :: "game list \<Rightarrow> string set" where
  "players df = set (map White df) \<union> set (map Black df)"

definition tg_frame :: "game list \<Rightarrow> frame" where
  "tg_frame df = with_column ''total_game_count'' (\<lambda>r. cell_add (r ''White_games'') (r ''Black_games''))
     (fillna0 (merge Outer (calculate_games df White ''White'') (calculate_games df Black ''Black'')))"

definition tm_frame :: "game list \<Rightarrow> frame" where
  "tm_frame df = project [''total_moves'']
     (with_column ''total_moves'' (\<lambda>r. cell_add (r ''white_move_sum'') (r ''black_move_sum''))
        (fillna0 (merge Outer (calculate_sum df White white_move_number ''white_move'')
                              (calculate_sum df Black black_move_number ''black_move''))))"

definition sum_inputs :: "game list \<Rightarrow> frame list" where
  "sum_inputs df = sum_tables df @ [tg_frame df, tm_frame df]"

definition joined :: "game list \<Rightarrow> frame" where
  "joined df = foldl (\<lambda>m d. fillna0 (merge Outer m d)) (hd (sum_inputs df)) (tl (sum_inputs df))"

definition ts_frame :: "game list \<Rightarrow> frame" where
  "ts_frame df =
     with_column ''Points'' (\<lambda>r. cell_add (r ''white_result_sum'') (r ''black_result_sum''))
    (with_column ''total_acpl_sum'' (\<lambda>r. cell_add (r ''white_acpl_sum'') (r ''black_acpl_sum''))
    (with_column ''total_gpl_sum'' (\<lambda>r. cell_add (r ''white_gpl_sum'') (r ''black_gpl_sum''))
    (with_column ''total_gi_raw_sum'' (\<lambda>r. cell_add (r ''white_gi_raw_sum'') (r ''black_gi_raw_sum''))
    (with_column ''total_gi_sum'' (\<lambda>r. cell_add (r ''white_gi_sum'') (r ''black_gi_sum''))
       (joined df)))))"

definition pooled :: "game list \<Rightarrow> string \<Rightarrow> obs list" where
  "pooled df p = filter (\<lambda>ob. Player ob = p) (combined_df df)"

definition merged :: "game list \<Rightarrow> frame" where
  "merged df = foldl (\<lambda>m d. fillna0 (merge Outer m d)) (ts_frame df) (stats df)"

definition av_frame :: "game list \<Rightarrow> frame" where
  "av_frame df =
     with_column ''avg_acpl'' (\<lambda>r. cell_div (r ''total_acpl_sum'') (r ''total_game_count''))
    (with_column ''avg_gpl'' (\<lambda>r. cell_div (r ''total_gpl_sum'') (r ''total_game_count''))
    (with_column ''avg_gi_raw'' (\<lambda>r. cell_div (r ''total_gi_raw_sum'') (r ''total_game_count''))
    (with_column ''avg_gi'' (\<lambda>r. cell_div (r ''total_gi_sum'') (r ''total_game_count''))
       (merged df))))"

definition oes_frame :: "game list \<Rightarrow> frame" where
  "oes_frame df = project [''sum_opponent_elo'']
     (with_column ''sum_opponent_elo'' (\<lambda>r. cell_add (r ''sum_opponent_elo_x'') (r ''sum_opponent_elo_y''))
        (fillna0 (merge Outer
           (groupby_agg White (\<lambda>g. Num (sum_list (map BlackElo g))) ''sum_opponent_elo'' df)
           (groupby_agg Black (\<lambda>g. Num (sum_list (map WhiteElo g))) ''sum_opponent_elo'' df))))"

definition aoe_frame :: "game list \<Rightarrow> frame" where
  "aoe_frame df = project [''avg_opponent_elo'']
     (with_column ''avg_opponent_elo'' (\<lambda>r. cell_div (r ''sum_opponent_elo'') (r ''total_game_count''))
        (merge Inner (oes_frame df) (project [''total_game_count''] (tg_frame df))))"

definition ae_frame :: "game list \<Rightarrow> frame" where
  "ae_frame df = project [''Elo'']
     (with_column ''Elo'' (\<lambda>r. elo_rule (r ''avg_elo_white'') (r ''avg_elo_black'')) (elo_avg df))"

definition with_opp :: "game list \<Rightarrow> frame" where
  "with_opp df = merge LeftJoin (av_frame df) (aoe_frame df)"

definition avg_elo_as_white :: "game list \<Rightarrow> string \<Rightarrow> real" where
  "avg_elo_as_white df p =
     (if as_white df p = [] then 0
      else sum_list (map WhiteElo (as_white df p)) / real (length (as_white df p)))"

definition avg_elo_as_black :: "game list \<Rightarrow> string \<Rightarrow> real" where
  "avg_elo_as_black df p =
     (if as_black df p = [] then 0
      else sum_list (map BlackElo (as_black df p)) / real (length (as_black df p)))"


definition the_frame :: "py_error + frame \<Rightarrow> frame" where
  "the_frame res = (case res of Inr F \<Rightarrow> F | Inl e \<Rightarrow> \<lparr>columns = [], rows = []\<rparr>)"

definition column_cells :: "string \<Rightarrow> frame \<Rightarrow> cell list" where
  "column_cells c F = map (\<lambda>kr. snd kr c) (rows F)"



definition example_solver :: solver where
  "example_solver = ((\<lambda>points games threshold. Inr (Num 0)), (\<lambda>w opponents. Inr opponents))"

definition game_1 :: game where
  "game_1 = \<lparr>White = ''A'', Black = ''B'', WhiteElo = 1500, BlackElo = 1400,
             WhiteResult = 1, BlackResult = 0, white_move_number = 30, black_move_number = 30,
             white_gi = 80, black_gi = 60, white_gi_raw = 8, black_gi_raw = 6,
             white_gpl = 3, black_gpl = 5, white_acpl = 20, black_acpl = 40\<rparr>"

definition game_2 :: game where
  "game_2 = \<lparr>White = ''B'', Black = ''A'', WhiteElo = 1400, BlackElo = 1520,
             WhiteResult = 1 / 2, BlackResult = 1 / 2, white_move_number = 40, black_move_number = 40,
             white_gi = 70, black_gi = 75, white_gi_raw = 7, black_gi_raw = 7,
             white_gpl = 4, black_gpl = 4, white_acpl = 30, black_acpl = 30\<rparr>"

definition example_games :: "game list" where
  "example_games = [game_1, game_2]"

definition single_game :: "game list" where
  "single_game = [game_1]"

definition tie_games :: "game list" where
  "tie_games = [game_1\<lparr>white_gi := 70, black_gi := 70\<rparr>]"

definition negative_elo_games :: "game list" where
  "negative_elo_games = [game_1\<lparr>WhiteElo := - 100\<rparr>]"

definition stats_of :: "game list \<Rightarrow> frame" where
  "stats_of df = the_frame (player_stats example_solver df)"

definition wide_of :: "game list \<Rightarrow> frame" where
  "wide_of df = the_frame (player_stats_wide example_solver df)"

definition no_files :: world where
  "no_files = \<lparr>files = (\<lambda>path. None), stdout = []\<rparr>"

section \<open>Properties\<close>

subsection \<open>Rows, keys and merges\<close>

declare merge.simps [simp del] merge_dataframes.simps [simp del]

lemma fill0_idem [simp]: "fill0 (fill0 c) = fill0 c"
  by (cases c) simp_all

lemma filter_key_distinct:
  "distinct (map fst xs) \<Longrightarrow>
   map snd (filter (\<lambda>kr. fst kr = k) xs) = (case map_of xs k of Some r \<Rightarrow> [r] | None \<Rightarrow> [])"
proof (induction xs)
  case Nil
  then show ?case by simp
next
  case (Cons x xs)
  obtain a b where x: "x = (a, b)" by (cases x)
  show ?case
  proof (cases "a = k")
    case True
    with Cons.prems x have "k \<notin> fst ` set xs" by auto
    then have "filter (\<lambda>kr. fst kr = k) xs = []"
      by (auto simp: filter_empty_conv)
    with True x show ?thesis by simp
  next
    case False
    with Cons x show ?thesis by simp
  qed
qed

lemma matches_distinct:
  "distinct (keys df) \<Longrightarrow> matches df k = (case map_of (rows df) k of Some r \<Rightarrow> [r] | None \<Rightarrow> [])"
  unfolding matches_def keys_def by (rule filter_key_distinct)

lemma map_of_eq_None_keys: "map_of (rows df) k = None \<longleftrightarrow> k \<notin> set (keys df)"
  by (simp add: keys_def map_of_eq_None_iff)

lemma row_at_absent: "k \<notin> set (keys df) \<Longrightarrow> row_at df k = nan_row"
  by (simp add: row_at_def map_of_eq_None_keys [symmetric])

lemma row_at_mem: "distinct (keys df) \<Longrightarrow> (k, r) \<in> set (rows df) \<Longrightarrow> row_at df k = r"
  by (simp add: row_at_def keys_def)

lemma mem_row_at: "k \<in> set (keys df) \<Longrightarrow> (k, row_at df k) \<in> set (rows df)"
proof -
  assume "k \<in> set (keys df)"
  then obtain r where "map_of (rows df) k = Some r"
    using map_of_eq_None_keys [of df k] by (cases "map_of (rows df) k") auto
  then show ?thesis by (simp add: row_at_def map_of_SomeD)
qed

lemma join_key_distinct:
  assumes "distinct (keys L)" "distinct (keys R)" "k \<in> set (keys L) \<union> set (keys R)"
  shows "join_key L R k = [(k, combine L R (row_at L k) (row_at R k))]"
proof -
  have "map_of (rows L) k \<noteq> None \<or> map_of (rows R) k \<noteq> None"
    using assms(3) by (simp add: map_of_eq_None_keys)
  then show ?thesis
    using assms(1,2)
    by (auto simp: join_key_def matches_distinct row_at_def Let_def split: option.splits)
qed

lemma concat_map_singleton: "(\<And>x. x \<in> set xs \<Longrightarrow> f x = [g x]) \<Longrightarrow> concat (map f xs) = map g xs"
  by (induction xs) simp_all

lemma rows_merge_Outer:
  assumes "distinct (keys L)" "distinct (keys R)"
  shows "rows (merge Outer L R) =
         map (\<lambda>k. (k, combine L R (row_at L k) (row_at R k))) (sort (remdups (keys L @ keys R)))"
proof -
  have "concat (map (join_key L R) (sort (remdups (keys L @ keys R)))) =
        map (\<lambda>k. (k, combine L R (row_at L k) (row_at R k))) (sort (remdups (keys L @ keys R)))"
    by (rule concat_map_singleton) (simp add: join_key_distinct [OF assms])
  then show ?thesis by (simp add: merge.simps)
qed

lemma keys_merge_Outer:
  assumes "distinct (keys L)" "distinct (keys R)"
  shows "keys (merge Outer L R) = sort (remdups (keys L @ keys R))"
  unfolding keys_def rows_merge_Outer [OF assms] by (simp add: comp_def keys_def)

lemma row_at_merge_Outer:
  assumes "distinct (keys L)" "distinct (keys R)"
  shows "row_at (merge Outer L R) p =
         (if p \<in> set (keys L) \<union> set (keys R) then combine L R (row_at L p) (row_at R p) else nan_row)"
proof -
  have "map_of (map (\<lambda>k. (k, g k)) ks) p = (if p \<in> set ks then Some (g p) else None)" for g :: "string \<Rightarrow> row" and ks
    by (induction ks) auto
  then show ?thesis
    unfolding row_at_def [of "merge Outer L R"] rows_merge_Outer [OF assms] by simp
qed

lemma columns_merge [simp]: "columns (merge h L R) = merged_columns L R"
  by (cases h) (simp_all add: merge.simps)

lemma find_eq: "find (\<lambda>c0. c0 = c) cs = (if c \<in> set cs then Some c else None)"
  by (induction cs) auto

lemma combine_disjoint:
  assumes "set (columns L) \<inter> set (columns R) = {}"
  shows "combine L R l r c =
         (if c \<in> set (columns L) then l c else if c \<in> set (columns R) then r c else NaN)"
proof -
  have a: "find (\<lambda>c0. rename_overlap ''_x'' (columns R) c0 = c) (columns L) = find (\<lambda>c0. c0 = c) (columns L)"
    using assms by (intro find_cong) (auto simp: rename_overlap_def)
  have b: "find (\<lambda>c0. rename_overlap ''_y'' (columns L) c0 = c) (columns R) = find (\<lambda>c0. c0 = c) (columns R)"
    using assms by (intro find_cong) (auto simp: rename_overlap_def)
  show ?thesis
    unfolding combine_def a b find_eq by simp
qed

lemma merged_columns_disjoint:
  "set (columns L) \<inter> set (columns R) = {} \<Longrightarrow> merged_columns L R = columns L @ columns R"
  unfolding merged_columns_def
  by (auto simp: rename_overlap_def intro!: map_idI)

lemma keys_fillna0 [simp]: "keys (fillna0 df) = keys df"
  by (simp add: keys_def fillna0_def comp_def case_prod_unfold)

lemma columns_fillna0 [simp]: "columns (fillna0 df) = columns df"
  by (simp add: fillna0_def)

lemma map_of_map_snd: "map_of (map (\<lambda>(k, r). (k, f r)) xs) p = map_option f (map_of xs p)"
  by (induction xs) auto

lemma row_at_fillna0:
  "row_at (fillna0 df) p c = (if p \<in> set (keys df) then fill0 (row_at df p c) else NaN)"
  by (auto simp: row_at_def fillna0_def map_of_map_snd nan_row_def map_of_eq_None_keys [symmetric]
      split: option.splits)

subsection \<open>Column assignment and projection\<close>

lemma map_of_rows_cases:
  obtains (absent) "map_of (rows df) p = None" "p \<notin> set (keys df)"
  | (present) r where "map_of (rows df) p = Some r" "p \<in> set (keys df)"
  using map_of_eq_None_keys [of df p] by (cases "map_of (rows df) p") auto

lemma keys_with_column [simp]: "keys (with_column new g df) = keys df"
  by (simp add: keys_def with_column_def comp_def case_prod_unfold)

lemma columns_with_column:
  "columns (with_column new g df) = (if new \<in> set (columns df) then columns df else columns df @ [new])"
  by (simp add: with_column_def)

lemma row_at_with_column:
  "row_at (with_column new g df) p c =
     (if p \<in> set (keys df) \<and> c = new then g (row_at df p) else row_at df p c)"
  by (cases rule: map_of_rows_cases [of df p])
     (simp_all add: row_at_def with_column_def map_of_map_snd nan_row_def)

lemma keys_project [simp]: "keys (project cs df) = keys df"
  by (simp add: keys_def project_def comp_def case_prod_unfold)

lemma columns_project [simp]: "columns (project cs df) = cs"
  by (simp add: project_def)

lemma row_at_project:
  "row_at (project cs df) p c = (if c \<in> set cs then row_at df p c else NaN)"
  by (auto simp: row_at_def project_def map_of_map_snd nan_row_def split: option.splits)

lemma select_Inr: "set cs \<subseteq> set (columns df) \<Longrightarrow> select cs df = Inr (project cs df)"
proof -
  assume "set cs \<subseteq> set (columns df)"
  then have "find (\<lambda>c. c \<notin> set (columns df)) cs = None"
    by (auto simp: find_None_iff)
  then show ?thesis by (simp add: select_def)
qed

lemma select_InrD: "select cs df = Inr F \<Longrightarrow> F = project cs df"
  by (auto simp: select_def split: option.splits)

lemma assign2_Inr:
  "a \<in> set (columns df) \<Longrightarrow> b \<in> set (columns df) \<Longrightarrow>
   assign2 new f a b df = Inr (with_column new (\<lambda>r. f (r a) (r b)) df)"
  by (simp add: assign2_def)

lemma and_then_Inr [simp]: "and_then (Inr x) f = f x"
  by (simp add: and_then_def)

lemma and_then_Inl [simp]: "and_then (Inl e) f = Inl e"
  by (simp add: and_then_def)

lemma and_then_eq_Inr: "and_then m f = Inr y \<longleftrightarrow> (\<exists>x. m = Inr x \<and> f x = Inr y)"
  by (cases m) simp_all

subsection \<open>Left and inner merges\<close>

lemma rows_merge_LeftJoin:
  assumes "distinct (keys R)"
  shows "rows (merge LeftJoin L R) = map (\<lambda>(k, l). (k, combine L R l (row_at R k))) (rows L)"
proof -
  have "(\<lambda>(k, l). if matches R k = [] then [(k, combine L R l nan_row)]
               else map (\<lambda>r. (k, combine L R l r)) (matches R k)) x =
        [(\<lambda>(k, l). (k, combine L R l (row_at R k))) x]" for x
    by (cases x) (simp add: matches_distinct [OF assms] row_at_def split: option.splits)
  then show ?thesis by (simp add: merge.simps concat_map_singleton)
qed

lemma keys_merge_LeftJoin:
  assumes "distinct (keys R)"
  shows "keys (merge LeftJoin L R) = keys L"
  unfolding keys_def [of "merge LeftJoin L R"] rows_merge_LeftJoin [OF assms]
  by (simp add: keys_def comp_def case_prod_unfold)

lemma map_of_map_key: "map_of (map (\<lambda>(k, l). (k, f k l)) xs) p = map_option (f p) (map_of xs p)"
  by (induction xs) auto

lemma row_at_merge_LeftJoin:
  assumes "distinct (keys R)"
  shows "row_at (merge LeftJoin L R) p =
         (if p \<in> set (keys L) then combine L R (row_at L p) (row_at R p) else nan_row)"
  unfolding row_at_def [of "merge LeftJoin L R"] rows_merge_LeftJoin [OF assms]
  by (cases rule: map_of_rows_cases [of L p]) (simp_all add: map_of_map_key row_at_def)

lemma rows_merge_Inner:
  assumes "distinct (keys R)"
  shows "rows (merge Inner L R) =
         map (\<lambda>(k, l). (k, combine L R l (row_at R k))) (filter (\<lambda>kl. fst kl \<in> set (keys R)) (rows L))"
proof -
  have "concat (map (\<lambda>(k, l). map (\<lambda>r. (k, combine L R l r)) (matches R k)) xs) =
        map (\<lambda>(k, l). (k, combine L R l (row_at R k))) (filter (\<lambda>kl. fst kl \<in> set (keys R)) xs)" for xs
  proof (induction xs)
    case Nil
    show ?case by simp
  next
    case (Cons x xs)
    obtain k l where x: "x = (k, l)" by (cases x)
    show ?case
      using Cons x
      by (cases rule: map_of_rows_cases [of R k])
         (simp_all add: matches_distinct [OF assms] row_at_def)
  qed
  then show ?thesis by (simp add: merge.simps)
qed

lemma keys_merge_Inner:
  assumes "distinct (keys R)"
  shows "keys (merge Inner L R) = filter (\<lambda>k. k \<in> set (keys R)) (keys L)"
  unfolding keys_def [of "merge Inner L R"] rows_merge_Inner [OF assms]
  by (simp add: keys_def [of L] comp_def case_prod_unfold filter_map)

lemma row_at_merge_Inner:
  assumes "distinct (keys R)" "set (keys L) \<subseteq> set (keys R)"
  shows "row_at (merge Inner L R) p =
         (if p \<in> set (keys L) then combine L R (row_at L p) (row_at R p) else nan_row)"
proof -
  have "filter (\<lambda>kl. fst kl \<in> set (keys R)) (rows L) = rows L"
    using assms(2) by (auto simp: keys_def filter_id_conv)
  then show ?thesis
    unfolding row_at_def [of "merge Inner L R"] rows_merge_Inner [OF assms(1)]
    by (cases rule: map_of_rows_cases [of L p]) (simp_all add: map_of_map_key row_at_def)
qed

subsection \<open>Group-by tables\<close>

lemma keys_groupby_agg: "keys (groupby_agg key agg name df) = sort (remdups (map key df))"
  by (simp add: keys_def groupby_agg_def groupby_def comp_def)

lemma distinct_keys_groupby_agg [simp]: "distinct (keys (groupby_agg key agg name df))"
  by (simp add: keys_groupby_agg)

lemma set_keys_groupby_agg [simp]: "set (keys (groupby_agg key agg name df)) = key ` set df"
  by (simp add: keys_groupby_agg)

lemma columns_groupby_agg [simp]: "columns (groupby_agg key agg name df) = [name]"
  by (simp add: groupby_agg_def)

lemma map_of_map_fun: "map_of (map (\<lambda>k. (k, g k)) ks) p = (if p \<in> set ks then Some (g p) else None)"
  by (induction ks) auto

lemma row_at_groupby_agg:
  "row_at (groupby_agg key agg name df) p c =
     (if p \<in> key ` set df \<and> c = name then agg (filter (\<lambda>g. key g = p) df) else NaN)"
  by (simp add: row_at_def groupby_agg_def groupby_def comp_def map_of_map_fun nan_row_def)

subsection \<open>Outer merges with the gaps filled\<close>

lemma distinct_keys_merge_Outer:
  "distinct (keys L) \<Longrightarrow> distinct (keys R) \<Longrightarrow> distinct (keys (merge Outer L R))"
  by (simp add: keys_merge_Outer)

lemma set_keys_merge_Outer:
  "distinct (keys L) \<Longrightarrow> distinct (keys R) \<Longrightarrow>
   set (keys (merge Outer L R)) = set (keys L) \<union> set (keys R)"
  by (simp add: keys_merge_Outer)

lemma row_at_outer_fill:
  assumes "distinct (keys L)" "distinct (keys R)" "set (columns L) \<inter> set (columns R) = {}"
  shows "row_at (fillna0 (merge Outer L R)) p c =
         (if p \<in> set (keys L) \<union> set (keys R)
          then fill0 (if c \<in> set (columns L) then row_at L p c
                      else if c \<in> set (columns R) then row_at R p c else NaN)
          else NaN)"
  by (simp add: row_at_fillna0 set_keys_merge_Outer [OF assms(1,2)]
      row_at_merge_Outer [OF assms(1,2)] combine_disjoint [OF assms(3)])

lemma fill0_row_at_outer_fill:
  assumes "distinct (keys L)" "distinct (keys R)" "set (columns L) \<inter> set (columns R) = {}"
  shows "c \<in> set (columns L) \<Longrightarrow> fill0 (row_at (fillna0 (merge Outer L R)) p c) = fill0 (row_at L p c)"
    and "c \<in> set (columns R) \<Longrightarrow> fill0 (row_at (fillna0 (merge Outer L R)) p c) = fill0 (row_at R p c)"
proof -
  have absent: "p \<notin> set (keys L) \<Longrightarrow> row_at L p c = NaN" "p \<notin> set (keys R) \<Longrightarrow> row_at R p c = NaN"
    by (simp_all add: row_at_absent nan_row_def)
  show "c \<in> set (columns L) \<Longrightarrow> fill0 (row_at (fillna0 (merge Outer L R)) p c) = fill0 (row_at L p c)"
    using absent by (simp add: row_at_outer_fill [OF assms])
  show "c \<in> set (columns R) \<Longrightarrow> fill0 (row_at (fillna0 (merge Outer L R)) p c) = fill0 (row_at R p c)"
    using absent assms(3) by (auto simp: row_at_outer_fill [OF assms])
qed

text \<open>The loop of \<open>merge_dataframes\<close>, by induction on the tables still to merge.\<close>

lemma foldl_merge_fill:
  assumes "\<forall>F \<in> set (d # dfs). distinct (keys F)" "distinct (concat (map columns (d # dfs)))"
  shows "columns (foldl (\<lambda>m df. fillna0 (merge Outer m df)) d dfs) = concat (map columns (d # dfs)) \<and>
         distinct (keys (foldl (\<lambda>m df. fillna0 (merge Outer m df)) d dfs)) \<and>
         set (keys (foldl (\<lambda>m df. fillna0 (merge Outer m df)) d dfs)) = (\<Union>F \<in> set (d # dfs). set (keys F)) \<and>
         (\<forall>F \<in> set (d # dfs). \<forall>c \<in> set (columns F). \<forall>p.
            fill0 (row_at (foldl (\<lambda>m df. fillna0 (merge Outer m df)) d dfs) p c) = fill0 (row_at F p c))"
  using assms
proof (induction dfs arbitrary: d)
  case Nil
  then show ?case by simp
next
  case (Cons x xs)
  let ?d = "fillna0 (merge Outer d x)"
  have dk: "distinct (keys d)" "distinct (keys x)" using Cons.prems(1) by simp_all
  have disj: "set (columns d) \<inter> set (columns x) = {}" using Cons.prems(2) by auto
  have cols: "columns ?d = columns d @ columns x"
    by (simp add: merged_columns_disjoint [OF disj])
  have keys: "distinct (keys ?d)" "set (keys ?d) = set (keys d) \<union> set (keys x)"
    by (simp_all add: keys_merge_Outer [OF dk])
  have p1: "\<forall>F \<in> set (?d # xs). distinct (keys F)"
    using Cons.prems(1) keys(1) by simp
  have p2: "distinct (concat (map columns (?d # xs)))"
    using Cons.prems(2) by (auto simp: merged_columns_disjoint [OF disj])
  note IH = Cons.IH [OF p1 p2]
  have a: "columns (foldl (\<lambda>m df. fillna0 (merge Outer m df)) d (x # xs)) = concat (map columns (d # x # xs))"
    using IH by (simp add: merged_columns_disjoint [OF disj])
  have b: "distinct (keys (foldl (\<lambda>m df. fillna0 (merge Outer m df)) d (x # xs)))"
    using IH by simp
  have c: "set (keys (foldl (\<lambda>m df. fillna0 (merge Outer m df)) d (x # xs))) = (\<Union>F \<in> set (d # x # xs). set (keys F))"
    using IH keys(2) by auto
  have e: "fill0 (row_at (foldl (\<lambda>m df. fillna0 (merge Outer m df)) d (x # xs)) p c) = fill0 (row_at F p c)"
    if F: "F \<in> set (d # x # xs)" and cF: "c \<in> set (columns F)" for F c p
  proof -
    have via: "c \<in> set (columns ?d) \<Longrightarrow>
      fill0 (row_at (foldl (\<lambda>m df. fillna0 (merge Outer m df)) d (x # xs)) p c) = fill0 (row_at ?d p c)"
      using IH by simp
    consider "F = d" | "F = x" | "F \<in> set xs" using F by auto
    then show ?thesis
    proof cases
      case 1
      with cF via show ?thesis
        by (simp add: merged_columns_disjoint [OF disj] fill0_row_at_outer_fill(1) [OF dk disj])
    next
      case 2
      with cF via show ?thesis
        by (simp add: merged_columns_disjoint [OF disj] fill0_row_at_outer_fill(2) [OF dk disj])
    next
      case 3
      with cF IH show ?thesis by simp
    qed
  qed
  from a b c e show ?case by blast
qed

lemma foldl_merge_filled:
  assumes "dfs \<noteq> []" "p \<in> set (keys (foldl (\<lambda>m df. fillna0 (merge Outer m df)) d dfs))"
  shows "fill0 (row_at (foldl (\<lambda>m df. fillna0 (merge Outer m df)) d dfs) p c) =
         row_at (foldl (\<lambda>m df. fillna0 (merge Outer m df)) d dfs) p c"
proof -
  obtain ys y where dfs: "dfs = ys @ [y]"
    using assms(1) by (cases dfs rule: rev_cases) auto
  show ?thesis
    using assms(2) unfolding dfs by (simp add: row_at_fillna0)
qed

subsection \<open>Games of a player\<close>

lemma as_white_empty: "p \<notin> White ` set df \<Longrightarrow> as_white df p = []"
  by (auto simp: as_white_def filter_empty_conv)

lemma as_black_empty: "p \<notin> Black ` set df \<Longrightarrow> as_black df p = []"
  by (auto simp: as_black_def filter_empty_conv)

lemma as_white_nonempty: "p \<in> White ` set df \<Longrightarrow> as_white df p \<noteq> []"
  by (auto simp: as_white_def filter_empty_conv)

lemma as_black_nonempty: "p \<in> Black ` set df \<Longrightarrow> as_black df p \<noteq> []"
  by (auto simp: as_black_def filter_empty_conv)

lemma players_games: "p \<in> players df \<Longrightarrow> 0 < length (as_white df p) + length (as_black df p)"
  using as_white_nonempty [of p df] as_black_nonempty [of p df]
  by (auto simp: players_def)

subsection \<open>Sums per player\<close>

lemma calculate_sum_facts [simp]:
  "columns (calculate_sum df key val prefix) = [prefix @ ''_sum'']"
  "distinct (keys (calculate_sum df key val prefix))"
  "set (keys (calculate_sum df key val prefix)) = key ` set df"
  by (simp_all add: calculate_sum_def)

lemma fill0_calculate_sum:
  "fill0 (row_at (calculate_sum df key val prefix) p (prefix @ ''_sum'')) =
   Num (sum_list (map val (filter (\<lambda>g. key g = p) df)))"
proof (cases "p \<in> key ` set df")
  case True
  then show ?thesis by (simp add: calculate_sum_def row_at_groupby_agg)
next
  case False
  then have "filter (\<lambda>g. key g = p) df = []" by (auto simp: filter_empty_conv)
  with False show ?thesis by (simp add: calculate_sum_def row_at_groupby_agg)
qed

subsection \<open>Game counts\<close>

lemma count_list_map: "count_list (map f xs) p = length (filter (\<lambda>x. f x = p) xs)"
  by (induction xs) auto

lemma set_value_counts: "set (value_counts xs) = (\<lambda>k. (k, count_list xs k)) ` set xs"
  by (simp add: value_counts_def)

lemma keys_value_counts: "distinct (map fst (value_counts xs))" "set (map fst (value_counts xs)) = set xs"
proof -
  have "mset (map fst (value_counts xs)) = mset (rev (remdups (rev xs)))"
    unfolding value_counts_def by (simp add: multiset.map_comp comp_def)
  then show "distinct (map fst (value_counts xs))"
    by (metis distinct_remdups distinct_rev mset_eq_imp_distinct_iff)
  show "set (map fst (value_counts xs)) = set xs"
    by (simp add: set_value_counts image_image)
qed

lemma calculate_games_facts [simp]:
  "columns (calculate_games df col name) = [name @ ''_games'']"
  "distinct (keys (calculate_games df col name))"
  "set (keys (calculate_games df col name)) = col ` set df"
  using keys_value_counts [of "map col df"]
  by (simp_all add: calculate_games_def keys_def comp_def case_prod_unfold)

lemma fill0_calculate_games:
  "fill0 (row_at (calculate_games df col name) p (name @ ''_games'')) =
   Num (real (length (filter (\<lambda>g. col g = p) df)))"
proof (cases "p \<in> col ` set df")
  case True
  then have "(p, count_list (map col df) p) \<in> set (value_counts (map col df))"
    by (auto simp: set_value_counts)
  then have "(p, nan_row(name @ ''_games'' := Num (real (count_list (map col df) p))))
             \<in> set (rows (calculate_games df col name))"
    by (force simp: calculate_games_def)
  then have "row_at (calculate_games df col name) p =
             nan_row(name @ ''_games'' := Num (real (count_list (map col df) p)))"
    by (rule row_at_mem [OF calculate_games_facts(2)])
  then show ?thesis by (simp add: count_list_map)
next
  case False
  then have "filter (\<lambda>g. col g = p) df = []" by (auto simp: filter_empty_conv)
  with False show ?thesis by (simp add: row_at_absent nan_row_def)
qed

subsection \<open>The table of total games\<close>

lemma total_games_eq: "total_games df = Inr (tg_frame df)"
  by (simp add: total_games_def calculate_total_games_def tg_frame_def assign2_Inr
      merged_columns_def rename_overlap_def)

lemma tg_frame_facts:
  "columns (tg_frame df) = [''White_games'', ''Black_games'', ''total_game_count'']"
  "distinct (keys (tg_frame df))"
  "set (keys (tg_frame df)) = players df"
  by (simp_all add: tg_frame_def columns_with_column merged_columns_def rename_overlap_def
      keys_merge_Outer players_def)

lemma tg_frame_cells:
  assumes "p \<in> players df"
  shows "row_at (tg_frame df) p ''White_games'' = Num (real (length (as_white df p)))"
    and "row_at (tg_frame df) p ''Black_games'' = Num (real (length (as_black df p)))"
    and "row_at (tg_frame df) p ''total_game_count'' =
         Num (real (length (as_white df p) + length (as_black df p)))"
proof -
  let ?W = "calculate_games df White ''White''" and ?B = "calculate_games df Black ''Black''"
  have p: "p \<in> set (keys ?W) \<union> set (keys ?B)" using assms by (simp add: players_def)
  have w: "row_at (fillna0 (merge Outer ?W ?B)) p ''White_games'' = Num (real (length (as_white df p)))"
    using p fill0_calculate_games [of df White "''White''" p]
    by (simp add: row_at_outer_fill as_white_def)
  have b: "row_at (fillna0 (merge Outer ?W ?B)) p ''Black_games'' = Num (real (length (as_black df p)))"
    using p fill0_calculate_games [of df Black "''Black''" p]
    by (simp add: row_at_outer_fill as_black_def)
  show "row_at (tg_frame df) p ''White_games'' = Num (real (length (as_white df p)))"
    using w by (simp add: tg_frame_def row_at_with_column)
  show "row_at (tg_frame df) p ''Black_games'' = Num (real (length (as_black df p)))"
    using b by (simp add: tg_frame_def row_at_with_column)
  show "row_at (tg_frame df) p ''total_game_count'' =
         Num (real (length (as_white df p) + length (as_black df p)))"
    using w b p by (simp add: tg_frame_def row_at_with_column keys_merge_Outer)
qed

subsection \<open>The table of total moves\<close>

lemma calculate_total_moves_eq: "calculate_total_moves df = Inr (tm_frame df)"
  by (simp add: calculate_total_moves_def tm_frame_def assign2_Inr select_Inr
      merged_columns_def rename_overlap_def columns_with_column)

lemma tm_frame_facts:
  "columns (tm_frame df) = [''total_moves'']"
  "distinct (keys (tm_frame df))"
  "set (keys (tm_frame df)) = players df"
  by (simp_all add: tm_frame_def keys_merge_Outer players_def)

subsection \<open>The joined sums\<close>

lemma merge_dataframes_sums: "merge_dataframes (sum_tables df @ [tg_frame df, tm_frame df]) = Inr (joined df)"
  by (simp add: joined_def sum_inputs_def sum_tables_def merge_dataframes.simps)

lemma sum_inputs_split: "hd (sum_inputs df) # tl (sum_inputs df) = sum_inputs df"
  by (simp add: sum_inputs_def sum_tables_def)

lemma sum_inputs_keys: "\<forall>F \<in> set (sum_inputs df). distinct (keys F)"
  by (simp add: sum_inputs_def sum_tables_def tg_frame_facts tm_frame_facts)

lemma sum_inputs_columns:
  "concat (map columns (sum_inputs df)) =
     [''white_gi_sum'', ''black_gi_sum'', ''white_gi_raw_sum'', ''black_gi_raw_sum'',
      ''white_gpl_sum'', ''black_gpl_sum'', ''white_acpl_sum'', ''black_acpl_sum'',
      ''white_result_sum'', ''black_result_sum'', ''White_games'', ''Black_games'',
      ''total_game_count'', ''total_moves'']"
  by (simp add: sum_inputs_def sum_tables_def tg_frame_facts tm_frame_facts)

lemma sum_inputs_players: "(\<Union>F \<in> set (sum_inputs df). set (keys F)) = players df"
  by (auto simp: sum_inputs_def sum_tables_def tg_frame_facts tm_frame_facts players_def)

lemma joined_facts:
  "columns (joined df) = concat (map columns (sum_inputs df))"
  "distinct (keys (joined df))"
  "set (keys (joined df)) = players df"
  "F \<in> set (sum_inputs df) \<Longrightarrow> c \<in> set (columns F) \<Longrightarrow> p \<in> players df \<Longrightarrow>
     row_at (joined df) p c = fill0 (row_at F p c)"
proof -
  have d: "distinct (concat (map columns (hd (sum_inputs df) # tl (sum_inputs df))))"
    unfolding sum_inputs_split sum_inputs_columns by simp
  have k: "\<forall>F \<in> set (hd (sum_inputs df) # tl (sum_inputs df)). distinct (keys F)"
    unfolding sum_inputs_split by (rule sum_inputs_keys)
  note f = foldl_merge_fill [OF k d, folded joined_def, unfolded sum_inputs_split]
  show "columns (joined df) = concat (map columns (sum_inputs df))" using f by blast
  show "distinct (keys (joined df))" using f by blast
  show keys: "set (keys (joined df)) = players df" using f sum_inputs_players by simp
  have ne: "tl (sum_inputs df) \<noteq> []" by (simp add: sum_inputs_def sum_tables_def)
  show "row_at (joined df) p c = fill0 (row_at F p c)"
    if "F \<in> set (sum_inputs df)" "c \<in> set (columns F)" "p \<in> players df"
  proof -
    have "fill0 (row_at (joined df) p c) = fill0 (row_at F p c)" using f that by blast
    moreover have "fill0 (row_at (joined df) p c) = row_at (joined df) p c"
      unfolding joined_def
      by (rule foldl_merge_filled [OF ne]) (use keys that(3) in \<open>simp add: joined_def\<close>)
    ultimately show ?thesis by simp
  qed
qed

lemma joined_sum_cell:
  assumes "calculate_sum df key val prefix \<in> set (sum_inputs df)" "p \<in> players df"
  shows "row_at (joined df) p (prefix @ ''_sum'') = Num (sum_list (map val (filter (\<lambda>g. key g = p) df)))"
  using joined_facts(4) [OF assms(1) _ assms(2), of "prefix @ ''_sum''"]
  by (simp add: fill0_calculate_sum)

lemma joined_count_cell:
  assumes "c \<in> set (columns (tg_frame df))" "p \<in> players df"
  shows "row_at (joined df) p c = fill0 (row_at (tg_frame df) p c)"
  by (rule joined_facts(4) [OF _ assms]) (simp add: sum_inputs_def)

lemma total_sums_eq: "total_sums df = Inr (ts_frame df)"
  by (simp add: total_sums_def total_games_eq calculate_total_moves_eq merge_dataframes_sums
      assign2_Inr columns_with_column joined_facts(1) sum_inputs_columns ts_frame_def)

lemma ts_frame_facts:
  "columns (ts_frame df) =
     [''white_gi_sum'', ''black_gi_sum'', ''white_gi_raw_sum'', ''black_gi_raw_sum'',
      ''white_gpl_sum'', ''black_gpl_sum'', ''white_acpl_sum'', ''black_acpl_sum'',
      ''white_result_sum'', ''black_result_sum'', ''White_games'', ''Black_games'',
      ''total_game_count'', ''total_moves'', ''total_gi_sum'', ''total_gi_raw_sum'',
      ''total_gpl_sum'', ''total_acpl_sum'', ''Points'']"
  "distinct (keys (ts_frame df))"
  "set (keys (ts_frame df)) = players df"
  by (simp_all add: ts_frame_def columns_with_column joined_facts sum_inputs_columns)

lemma ts_frame_sums:
  assumes p: "p \<in> players df"
  shows "row_at (ts_frame df) p ''white_gi_sum'' = Num (sum_list (map white_gi (as_white df p)))"
    and "row_at (ts_frame df) p ''black_gi_sum'' = Num (sum_list (map black_gi (as_black df p)))"
    and "row_at (ts_frame df) p ''white_gi_raw_sum'' = Num (sum_list (map white_gi_raw (as_white df p)))"
    and "row_at (ts_frame df) p ''black_gi_raw_sum'' = Num (sum_list (map black_gi_raw (as_black df p)))"
    and "row_at (ts_frame df) p ''white_gpl_sum'' = Num (sum_list (map white_gpl (as_white df p)))"
    and "row_at (ts_frame df) p ''black_gpl_sum'' = Num (sum_list (map black_gpl (as_black df p)))"
    and "row_at (ts_frame df) p ''white_acpl_sum'' = Num (sum_list (map white_acpl (as_white df p)))"
    and "row_at (ts_frame df) p ''black_acpl_sum'' = Num (sum_list (map black_acpl (as_black df p)))"
  using joined_sum_cell [OF _ p, of White white_gi "''white_gi''"]
        joined_sum_cell [OF _ p, of Black black_gi "''black_gi''"]
        joined_sum_cell [OF _ p, of White white_gi_raw "''white_gi_raw''"]
        joined_sum_cell [OF _ p, of Black black_gi_raw "''black_gi_raw''"]
        joined_sum_cell [OF _ p, of White white_gpl "''white_gpl''"]
        joined_sum_cell [OF _ p, of Black black_gpl "''black_gpl''"]
        joined_sum_cell [OF _ p, of White white_acpl "''white_acpl''"]
        joined_sum_cell [OF _ p, of Black black_acpl "''black_acpl''"]
  by (simp_all add: ts_frame_def row_at_with_column sum_inputs_def sum_tables_def as_white_def as_black_def)

lemma ts_frame_counts:
  assumes p: "p \<in> players df"
  shows "row_at (ts_frame df) p ''White_games'' = Num (real (length (as_white df p)))"
    and "row_at (ts_frame df) p ''Black_games'' = Num (real (length (as_black df p)))"
    and "row_at (ts_frame df) p ''total_game_count'' =
         Num (real (length (as_white df p) + length (as_black df p)))"
  using joined_count_cell [OF _ p, of "''White_games''"]
        joined_count_cell [OF _ p, of "''Black_games''"]
        joined_count_cell [OF _ p, of "''total_game_count''"]
        tg_frame_cells [OF p]
  by (simp_all add: ts_frame_def row_at_with_column tg_frame_facts)

lemma ts_frame_totals:
  assumes p: "p \<in> players df"
  shows "row_at (ts_frame df) p ''total_gi_sum'' =
           cell_add (row_at (ts_frame df) p ''white_gi_sum'') (row_at (ts_frame df) p ''black_gi_sum'')"
    and "row_at (ts_frame df) p ''total_gi_raw_sum'' =
           cell_add (row_at (ts_frame df) p ''white_gi_raw_sum'') (row_at (ts_frame df) p ''black_gi_raw_sum'')"
    and "row_at (ts_frame df) p ''total_gpl_sum'' =
           cell_add (row_at (ts_frame df) p ''white_gpl_sum'') (row_at (ts_frame df) p ''black_gpl_sum'')"
    and "row_at (ts_frame df) p ''total_acpl_sum'' =
           cell_add (row_at (ts_frame df) p ''white_acpl_sum'') (row_at (ts_frame df) p ''black_acpl_sum'')"
  using p by (simp_all add: ts_frame_def row_at_with_column joined_facts(3))

subsection \<open>Dispersion statistics\<close>

lemma Player_combined_df: "Player ` set (combined_df df) = players df"
  by (auto simp: combined_df_def players_def image_Un image_image)

lemma length_pooled: "length (pooled df p) = length (as_white df p) + length (as_black df p)"
  by (simp add: pooled_def combined_df_def as_white_def as_black_def filter_map comp_def)

lemma calculate_statistics_facts [simp]:
  "columns (calculate_statistics cdf val name) = [name @ ''_median'', name @ ''_var'', name @ ''_std'']"
  "distinct (keys (calculate_statistics cdf val name))"
  "set (keys (calculate_statistics cdf val name)) = Player ` set cdf"
  by (simp_all add: calculate_statistics_def keys_def groupby_def comp_def)

lemma row_at_calculate_statistics:
  "row_at (calculate_statistics cdf val name) p =
     (if p \<in> Player ` set cdf
      then nan_row(name @ ''_median'' := median (map val (filter (\<lambda>ob. Player ob = p) cdf)),
                   name @ ''_var'' := var (map val (filter (\<lambda>ob. Player ob = p) cdf)),
                   name @ ''_std'' := std (map val (filter (\<lambda>ob. Player ob = p) cdf)))
      else nan_row)"
  by (simp add: row_at_def calculate_statistics_def groupby_def comp_def map_of_map_fun)

lemma var_single: "length xs = 1 \<Longrightarrow> var xs = NaN"
  by (simp add: var_def)

lemma std_single: "length xs = 1 \<Longrightarrow> std xs = NaN"
  by (simp add: std_def var_single)

subsection \<open>The averages\<close>

lemma merge_dataframes_stats: "merge_dataframes (ts_frame df # stats df) = Inr (merged df)"
  by (simp add: merged_def merge_dataframes.simps)

lemma stats_columns:
  "concat (map columns (stats df)) =
     [''gi_median'', ''gi_var'', ''gi_std'', ''gi_raw_median'', ''gi_raw_var'', ''gi_raw_std'',
      ''gpl_median'', ''gpl_var'', ''gpl_std'', ''acpl_median'', ''acpl_var'', ''acpl_std'']"
  by (simp add: stats_def)

lemma merged_facts:
  "columns (merged df) = columns (ts_frame df) @ concat (map columns (stats df))"
  "distinct (keys (merged df))"
  "set (keys (merged df)) = players df"
  "F \<in> set (ts_frame df # stats df) \<Longrightarrow> c \<in> set (columns F) \<Longrightarrow> p \<in> players df \<Longrightarrow>
     row_at (merged df) p c = fill0 (row_at F p c)"
proof -
  have d: "distinct (concat (map columns (ts_frame df # stats df)))"
    by (simp add: ts_frame_facts(1) stats_columns)
  have k: "\<forall>F \<in> set (ts_frame df # stats df). distinct (keys F)"
    by (simp add: ts_frame_facts(2) stats_def)
  note f = foldl_merge_fill [OF k d, folded merged_def]
  show "columns (merged df) = columns (ts_frame df) @ concat (map columns (stats df))"
    using f by simp
  show "distinct (keys (merged df))" using f by blast
  have "(\<Union>F \<in> set (ts_frame df # stats df). set (keys F)) = players df"
    by (simp add: ts_frame_facts(3) stats_def Player_combined_df)
  then show keys: "set (keys (merged df)) = players df" using f by simp
  have ne: "stats df \<noteq> []" by (simp add: stats_def)
  show "row_at (merged df) p c = fill0 (row_at F p c)"
    if "F \<in> set (ts_frame df # stats df)" "c \<in> set (columns F)" "p \<in> players df"
  proof -
    have "fill0 (row_at (merged df) p c) = fill0 (row_at F p c)" using f that by blast
    moreover have "fill0 (row_at (merged df) p c) = row_at (merged df) p c"
      unfolding merged_def
      by (rule foldl_merge_filled [OF ne]) (use keys that(3) in \<open>simp add: merged_def\<close>)
    ultimately show ?thesis by simp
  qed
qed

lemma merged_columns_eq:
  "columns (merged df) =
     [''white_gi_sum'', ''black_gi_sum'', ''white_gi_raw_sum'', ''black_gi_raw_sum'',
      ''white_gpl_sum'', ''black_gpl_sum'', ''white_acpl_sum'', ''black_acpl_sum'',
      ''white_result_sum'', ''black_result_sum'', ''White_games'', ''Black_games'',
      ''total_game_count'', ''total_moves'', ''total_gi_sum'', ''total_gi_raw_sum'',
      ''total_gpl_sum'', ''total_acpl_sum'', ''Points'',
      ''gi_median'', ''gi_var'', ''gi_std'', ''gi_raw_median'', ''gi_raw_var'', ''gi_raw_std'',
      ''gpl_median'', ''gpl_var'', ''gpl_std'', ''acpl_median'', ''acpl_var'', ''acpl_std'']"
  by (simp add: merged_facts(1) ts_frame_facts(1) stats_columns)

lemma averaged_eq: "averaged df = Inr (av_frame df)"
  by (simp add: averaged_def total_sums_eq merge_dataframes_stats calculate_averages_def
      assign2_Inr columns_with_column merged_columns_eq av_frame_def)

lemma av_frame_facts:
  "columns (av_frame df) = columns (merged df) @ [''avg_gi'', ''avg_gi_raw'', ''avg_gpl'', ''avg_acpl'']"
  "distinct (keys (av_frame df))"
  "set (keys (av_frame df)) = players df"
  by (simp_all add: av_frame_def columns_with_column merged_facts(2,3) merged_columns_eq)

lemma av_frame_old:
  assumes "c \<in> set (columns (merged df))"
  shows "row_at (av_frame df) p c = row_at (merged df) p c"
  using assms by (auto simp: av_frame_def row_at_with_column merged_columns_eq)

lemma av_frame_avgs:
  assumes p: "p \<in> players df"
  shows "row_at (av_frame df) p ''avg_gi'' =
           cell_div (row_at (merged df) p ''total_gi_sum'') (row_at (merged df) p ''total_game_count'')"
    and "row_at (av_frame df) p ''avg_gi_raw'' =
           cell_div (row_at (merged df) p ''total_gi_raw_sum'') (row_at (merged df) p ''total_game_count'')"
    and "row_at (av_frame df) p ''avg_gpl'' =
           cell_div (row_at (merged df) p ''total_gpl_sum'') (row_at (merged df) p ''total_game_count'')"
    and "row_at (av_frame df) p ''avg_acpl'' =
           cell_div (row_at (merged df) p ''total_acpl_sum'') (row_at (merged df) p ''total_game_count'')"
  using p by (simp_all add: av_frame_def row_at_with_column merged_facts(3))

lemma merged_ts:
  assumes "c \<in> set (columns (ts_frame df))" "p \<in> players df"
  shows "row_at (merged df) p c = fill0 (row_at (ts_frame df) p c)"
  by (rule merged_facts(4) [OF _ assms]) simp

lemma cell_div_count: "0 < n \<Longrightarrow> cell_div (Num a) (Num (real n)) = Num (a / real n)"
  by simp

subsection \<open>Opponent ratings\<close>

lemma calculate_opponent_elo_sums_eq: "calculate_opponent_elo_sums df = Inr (oes_frame df)"
  by (simp add: calculate_opponent_elo_sums_def oes_frame_def assign2_Inr select_Inr
      merged_columns_def rename_overlap_def columns_with_column)

lemma oes_frame_facts:
  "columns (oes_frame df) = [''sum_opponent_elo'']"
  "distinct (keys (oes_frame df))"
  "set (keys (oes_frame df)) = players df"
  by (simp_all add: oes_frame_def keys_merge_Outer players_def)

lemma oes_frame_cell:
  assumes p: "p \<in> players df"
  shows "row_at (oes_frame df) p ''sum_opponent_elo'' =
         Num (sum_list (map BlackElo (as_white df p)) + sum_list (map WhiteElo (as_black df p)))"
proof -
  let ?W = "groupby_agg White (\<lambda>g. Num (sum_list (map BlackElo g))) ''sum_opponent_elo'' df"
  let ?B = "groupby_agg Black (\<lambda>g. Num (sum_list (map WhiteElo g))) ''sum_opponent_elo'' df"
  have pk: "p \<in> set (keys ?W) \<union> set (keys ?B)" using p by (simp add: players_def)
  have x: "fill0 (row_at ?W p ''sum_opponent_elo'') = Num (sum_list (map BlackElo (as_white df p)))"
    using as_white_empty [of p df] by (simp add: row_at_groupby_agg as_white_def)
  have y: "fill0 (row_at ?B p ''sum_opponent_elo'') = Num (sum_list (map WhiteElo (as_black df p)))"
    using as_black_empty [of p df] by (simp add: row_at_groupby_agg as_black_def)
  have cx: "combine ?W ?B l r ''sum_opponent_elo_x'' = l ''sum_opponent_elo''" for l r
    by (simp add: combine_def rename_overlap_def)
  have cy: "combine ?W ?B l r ''sum_opponent_elo_y'' = r ''sum_opponent_elo''" for l r
    by (simp add: combine_def rename_overlap_def)
  have "row_at (fillna0 (merge Outer ?W ?B)) p ''sum_opponent_elo_x'' = Num (sum_list (map BlackElo (as_white df p)))"
       "row_at (fillna0 (merge Outer ?W ?B)) p ''sum_opponent_elo_y'' = Num (sum_list (map WhiteElo (as_black df p)))"
    using pk x y by (simp_all add: row_at_fillna0 keys_merge_Outer row_at_merge_Outer cx cy)
  then show ?thesis
    using pk by (simp add: oes_frame_def row_at_project row_at_with_column keys_merge_Outer)
qed

lemma avg_opponent_elo_eq: "avg_opponent_elo df = Inr (aoe_frame df)"
  by (simp add: avg_opponent_elo_def calculate_opponent_elo_sums_eq total_games_eq
      calculate_avg_opponent_elo_def select_Inr tg_frame_facts assign2_Inr oes_frame_facts
      merged_columns_def rename_overlap_def columns_with_column aoe_frame_def)

lemma aoe_frame_facts:
  "columns (aoe_frame df) = [''avg_opponent_elo'']"
  "distinct (keys (aoe_frame df))"
  "set (keys (aoe_frame df)) = players df"
  by (simp_all add: aoe_frame_def keys_merge_Inner tg_frame_facts oes_frame_facts)

lemma aoe_frame_cell:
  assumes p: "p \<in> players df"
  shows "row_at (aoe_frame df) p ''avg_opponent_elo'' =
         Num ((sum_list (map BlackElo (as_white df p)) + sum_list (map WhiteElo (as_black df p))) /
              real (length (as_white df p) + length (as_black df p)))"
proof -
  let ?R = "project [''total_game_count''] (tg_frame df)"
  have dk: "distinct (keys ?R)" "set (keys (oes_frame df)) \<subseteq> set (keys ?R)"
    by (simp_all add: tg_frame_facts oes_frame_facts)
  have disj: "set (columns (oes_frame df)) \<inter> set (columns ?R) = {}"
    by (simp add: oes_frame_facts)
  have n: "0 < length (as_white df p) + length (as_black df p)" by (rule players_games [OF p])
  have "row_at (aoe_frame df) p ''avg_opponent_elo'' =
        cell_div (Num (sum_list (map BlackElo (as_white df p)) + sum_list (map WhiteElo (as_black df p))))
                 (Num (real (length (as_white df p) + length (as_black df p))))"
    using p
    by (simp add: aoe_frame_def row_at_project row_at_with_column keys_merge_Inner [OF dk(1)]
        row_at_merge_Inner [OF dk] combine_disjoint [OF disj] oes_frame_facts tg_frame_facts
        oes_frame_cell tg_frame_cells del: cell_div.simps of_nat_add)
  then show ?thesis by (simp only: cell_div_count [OF n])
qed

subsection \<open>Average ratings\<close>

lemma elo_avg_facts:
  "columns (elo_avg df) = [''avg_elo_white'', ''avg_elo_black'']"
  "distinct (keys (elo_avg df))"
  "set (keys (elo_avg df)) = players df"
  by (simp_all add: elo_avg_def merged_columns_def rename_overlap_def keys_merge_Outer players_def)

lemma elo_avg_cells:
  assumes p: "p \<in> players df"
  shows "row_at (elo_avg df) p ''avg_elo_white'' =
           (if as_white df p = [] then Num 0 else mean (map WhiteElo (as_white df p)))"
    and "row_at (elo_avg df) p ''avg_elo_black'' =
           (if as_black df p = [] then Num 0 else mean (map BlackElo (as_black df p)))"
proof -
  let ?W = "groupby_agg White (\<lambda>g. mean (map WhiteElo g)) ''avg_elo_white'' df"
  let ?B = "groupby_agg Black (\<lambda>g. mean (map BlackElo g)) ''avg_elo_black'' df"
  have pk: "p \<in> set (keys ?W) \<union> set (keys ?B)" using p by (simp add: players_def)
  have m: "fill0 (mean xs) = mean xs" if "xs \<noteq> []" for xs using that by (simp add: mean_def)
  show "row_at (elo_avg df) p ''avg_elo_white'' =
           (if as_white df p = [] then Num 0 else mean (map WhiteElo (as_white df p)))"
    using pk as_white_empty [of p df] as_white_nonempty [of p df]
    by (auto simp: elo_avg_def row_at_outer_fill row_at_groupby_agg m as_white_def [symmetric])
  show "row_at (elo_avg df) p ''avg_elo_black'' =
           (if as_black df p = [] then Num 0 else mean (map BlackElo (as_black df p)))"
    using pk as_black_empty [of p df] as_black_nonempty [of p df]
    by (auto simp: elo_avg_def row_at_outer_fill row_at_groupby_agg m as_black_def [symmetric])
qed

lemma calculate_average_elo_eq: "calculate_average_elo df = Inr (ae_frame df)"
  by (simp add: calculate_average_elo_def assign2_Inr select_Inr elo_avg_facts
      columns_with_column ae_frame_def)

lemma ae_frame_facts:
  "columns (ae_frame df) = [''Elo'']"
  "distinct (keys (ae_frame df))"
  "set (keys (ae_frame df)) = players df"
  by (simp_all add: ae_frame_def elo_avg_facts)

lemma ae_frame_cell:
  assumes p: "p \<in> players df"
  shows "row_at (ae_frame df) p ''Elo'' =
         elo_rule (row_at (elo_avg df) p ''avg_elo_white'') (row_at (elo_avg df) p ''avg_elo_black'')"
  using p by (simp add: ae_frame_def row_at_project row_at_with_column elo_avg_facts)

subsection \<open>Row-wise application and the solver\<close>

lemma mapM_keeps:
  assumes "\<And>k r y. g (k, r) = Inr y \<Longrightarrow> fst y = k \<and> (\<forall>c. c \<noteq> new \<longrightarrow> snd y c = r c)"
  shows "mapM g xs = Inr ys \<Longrightarrow>
   map fst ys = map fst xs \<and>
   (\<forall>p c. c \<noteq> new \<longrightarrow> (case map_of ys p of Some r \<Rightarrow> r | None \<Rightarrow> nan_row) c =
                        (case map_of xs p of Some r \<Rightarrow> r | None \<Rightarrow> nan_row) c)"
proof (induction xs arbitrary: ys)
  case Nil
  then show ?case by auto
next
  case (Cons x xs)
  obtain k r where x: "x = (k, r)" by (cases x)
  show ?case
  proof (cases "g (k, r)")
    case (Inl e)
    with Cons.prems x show ?thesis by simp
  next
    case y: (Inr y)
    show ?thesis
    proof (cases "mapM g xs")
      case (Inl e)
      with Cons.prems x y show ?thesis by simp
    next
      case (Inr zs)
      then have ys: "ys = y # zs"
        using Cons.prems x y by simp
      obtain k' r' where y': "y = (k', r')" by (cases y)
      from assms [OF y] Cons.IH [OF Inr] show ?thesis
        unfolding ys x y' by simp
    qed
  qed
qed

lemma mapM_apply_rows:
  "mapM (\<lambda>(k, r). and_then (f r) (\<lambda>v. Inr (k, r(new := v)))) xs = Inr ys \<Longrightarrow>
   map fst ys = map fst xs \<and>
   (\<forall>p c. c \<noteq> new \<longrightarrow> (case map_of ys p of Some r \<Rightarrow> r | None \<Rightarrow> nan_row) c =
                        (case map_of xs p of Some r \<Rightarrow> r | None \<Rightarrow> nan_row) c)"
  by (rule mapM_keeps) (auto simp: and_then_eq_Inr)

lemma mapM_total:
  "(\<And>x. x \<in> set xs \<Longrightarrow> \<exists>y. f x = Inr y) \<Longrightarrow> \<exists>ys. mapM f xs = Inr ys"
proof (induction xs)
  case Nil
  show ?case by simp
next
  case (Cons x xs)
  then obtain y ys where "f x = Inr y" "mapM f xs = Inr ys" by (meson list.set_intros)
  then show ?case by simp
qed

lemma assign_apply_InrD:
  assumes "assign_apply new reads f df = Inr F"
  shows "keys F = keys df"
    and "columns F = (if new \<in> set (columns df) then columns df else columns df @ [new])"
    and "c \<noteq> new \<Longrightarrow> row_at F p c = row_at df p c"
proof -
  from assms obtain rs where
    rs: "mapM (\<lambda>(k, r). and_then (f r) (\<lambda>v. Inr (k, r(new := v)))) (rows df) = Inr rs"
    and F: "F = \<lparr>columns = (if new \<in> set (columns df) then columns df else columns df @ [new]), rows = rs\<rparr>"
    by (auto simp: assign_apply_def and_then_eq_Inr split: option.splits)
  note m = mapM_apply_rows [OF rs]
  show "keys F = keys df" using m by (simp add: F keys_def)
  show "columns F = (if new \<in> set (columns df) then columns df else columns df @ [new])"
    by (simp add: F)
  show "row_at F p c = row_at df p c" if "c \<noteq> new"
    using m that by (simp add: F row_at_def)
qed

lemma assign_apply_total:
  assumes "set reads \<subseteq> set (columns df)" "\<And>r :: row. \<exists>v. f r = Inr v"
  shows "\<exists>F. assign_apply new reads f df = Inr F"
proof -
  have "find (\<lambda>c. c \<notin> set (columns df)) reads = None"
    using assms(1) by (auto simp: find_None_iff)
  moreover have "\<exists>rs. mapM (\<lambda>(k, r). and_then (f r) (\<lambda>v. Inr (k, r(new := v)))) (rows df) = Inr rs"
  proof (rule mapM_total)
    fix x :: "string \<times> row"
    obtain k r where x: "x = (k, r)" by (cases x)
    obtain v where "f r = Inr v" using assms(2) by blast
    then show "\<exists>y. (case x of (k, r) \<Rightarrow> and_then (f r) (\<lambda>v. Inr (k, r(new := v)))) = Inr y"
      by (simp add: x)
  qed
  ultimately show ?thesis by (auto simp: assign_apply_def)
qed

lemma assign_apply_reads:
  "assign_apply new reads f df = Inr F \<Longrightarrow> set reads \<subseteq> set (columns df)"
  by (auto simp: assign_apply_def find_None_iff split: option.splits)

lemma calculate_tpr_InrD:
  assumes "calculate_tpr sv df = Inr F" "''w_star'' \<notin> set (columns df)" "''TPR'' \<notin> set (columns df)"
  shows "keys F = keys df"
    and "columns F = columns df @ [''w_star'', ''TPR'']"
    and "c \<noteq> ''w_star'' \<Longrightarrow> c \<noteq> ''TPR'' \<Longrightarrow> row_at F p c = row_at df p c"
proof -
  from assms(1) obtain G where
    G: "assign_apply ''w_star'' [''Points'', ''total_game_count'']
          (\<lambda>r. fst sv (r ''Points'') (r ''total_game_count'') 0.75) df = Inr G"
    and F: "assign_apply ''TPR'' [''w_star'', ''avg_opponent_elo'']
          (\<lambda>r. and_then (snd sv (r ''w_star'') (r ''avg_opponent_elo'')) (\<lambda>v. Inr (py_round v))) G = Inr F"
    by (auto simp: calculate_tpr_def and_then_eq_Inr)
  note g = assign_apply_InrD [OF G] and f = assign_apply_InrD [OF F]
  show "keys F = keys df" using g(1) f(1) by simp
  show "columns F = columns df @ [''w_star'', ''TPR'']"
    using g(2) f(2) assms(2,3) by simp
  show "row_at F p c = row_at df p c" if "c \<noteq> ''w_star''" "c \<noteq> ''TPR''"
    using g(3) [OF that(1)] f(3) [OF that(2)] by simp
qed

lemma calculate_tpr_total:
  assumes "{''Points'', ''total_game_count'', ''avg_opponent_elo''} \<subseteq> set (columns df)"
    and "\<And>a b t. \<exists>v. fst sv a b t = Inr v" "\<And>a b. \<exists>v. snd sv a b = Inr v"
  shows "\<exists>F. calculate_tpr sv df = Inr F"
proof -
  obtain G where G: "assign_apply ''w_star'' [''Points'', ''total_game_count'']
          (\<lambda>r. fst sv (r ''Points'') (r ''total_game_count'') 0.75) df = Inr G"
    using assign_apply_total [of "[''Points'', ''total_game_count'']" df
        "\<lambda>r. fst sv (r ''Points'') (r ''total_game_count'') 0.75" "''w_star''"] assms(1,2)
    by auto
  have cols: "set [''w_star'', ''avg_opponent_elo''] \<subseteq> set (columns G)"
    using assign_apply_InrD(2) [OF G] assms(1) by auto
  have "\<exists>v. and_then (snd sv (r ''w_star'') (r ''avg_opponent_elo'')) (\<lambda>v. Inr (py_round v)) = Inr v"
    for r :: row
  proof -
    obtain v where "snd sv (r ''w_star'') (r ''avg_opponent_elo'') = Inr v" using assms(3) by blast
    then show ?thesis by simp
  qed
  then obtain F where "assign_apply ''TPR'' [''w_star'', ''avg_opponent_elo'']
          (\<lambda>r. and_then (snd sv (r ''w_star'') (r ''avg_opponent_elo'')) (\<lambda>v. Inr (py_round v))) G = Inr F"
    using assign_apply_total [OF cols, of
        "\<lambda>r. and_then (snd sv (r ''w_star'') (r ''avg_opponent_elo'')) (\<lambda>v. Inr (py_round v))" "''TPR''"]
    by blast
  with G show ?thesis by (simp add: calculate_tpr_def)
qed

subsection \<open>The wide table\<close>

lemma av_columns_eq:
  "columns (av_frame df) =
     [''white_gi_sum'', ''black_gi_sum'', ''white_gi_raw_sum'', ''black_gi_raw_sum'',
      ''white_gpl_sum'', ''black_gpl_sum'', ''white_acpl_sum'', ''black_acpl_sum'',
      ''white_result_sum'', ''black_result_sum'', ''White_games'', ''Black_games'',
      ''total_game_count'', ''total_moves'', ''total_gi_sum'', ''total_gi_raw_sum'',
      ''total_gpl_sum'', ''total_acpl_sum'', ''Points'',
      ''gi_median'', ''gi_var'', ''gi_std'', ''gi_raw_median'', ''gi_raw_var'', ''gi_raw_std'',
      ''gpl_median'', ''gpl_var'', ''gpl_std'', ''acpl_median'', ''acpl_var'', ''acpl_std'',
      ''avg_gi'', ''avg_gi_raw'', ''avg_gpl'', ''avg_acpl'']"
  by (simp add: av_frame_facts(1) merged_columns_eq)

lemma with_opp_facts:
  "columns (with_opp df) = columns (av_frame df) @ [''avg_opponent_elo'']"
  "keys (with_opp df) = keys (av_frame df)"
  "c \<in> set (columns (av_frame df)) \<Longrightarrow> row_at (with_opp df) p c = row_at (av_frame df) p c"
  "p \<in> players df \<Longrightarrow> row_at (with_opp df) p ''avg_opponent_elo'' = row_at (aoe_frame df) p ''avg_opponent_elo''"
proof -
  have disj: "set (columns (av_frame df)) \<inter> set (columns (aoe_frame df)) = {}"
    by (simp add: av_columns_eq aoe_frame_facts(1))
  show "columns (with_opp df) = columns (av_frame df) @ [''avg_opponent_elo'']"
    by (simp add: with_opp_def merged_columns_disjoint [OF disj] aoe_frame_facts(1))
  show "keys (with_opp df) = keys (av_frame df)"
    by (simp add: with_opp_def keys_merge_LeftJoin aoe_frame_facts(2))
  show "row_at (with_opp df) p c = row_at (av_frame df) p c" if "c \<in> set (columns (av_frame df))"
    using that
    by (simp add: with_opp_def row_at_merge_LeftJoin aoe_frame_facts(2) combine_disjoint [OF disj]
        row_at_absent nan_row_def)
  show "row_at (with_opp df) p ''avg_opponent_elo'' = row_at (aoe_frame df) p ''avg_opponent_elo''"
    if "p \<in> players df"
    using that
    by (simp add: with_opp_def row_at_merge_LeftJoin aoe_frame_facts combine_disjoint [OF disj]
        av_frame_facts(3) av_columns_eq)
qed

lemma player_stats_wide_InrD:
  assumes "player_stats_wide sv df = Inr wide"
  obtains T where "calculate_tpr sv (with_opp df) = Inr T" "wide = merge LeftJoin T (ae_frame df)"
  using assms
  by (auto simp: player_stats_wide_def averaged_eq avg_opponent_elo_eq calculate_average_elo_eq
      and_then_eq_Inr with_opp_def)

lemma wide_columns_list:
  "columns (av_frame df) @ [''avg_opponent_elo''] @ [''w_star'', ''TPR''] @ [''Elo''] =
     [''white_gi_sum'', ''black_gi_sum'', ''white_gi_raw_sum'', ''black_gi_raw_sum'',
      ''white_gpl_sum'', ''black_gpl_sum'', ''white_acpl_sum'', ''black_acpl_sum'',
      ''white_result_sum'', ''black_result_sum'', ''White_games'', ''Black_games'',
      ''total_game_count'', ''total_moves'', ''total_gi_sum'', ''total_gi_raw_sum'',
      ''total_gpl_sum'', ''total_acpl_sum'', ''Points'',
      ''gi_median'', ''gi_var'', ''gi_std'', ''gi_raw_median'', ''gi_raw_var'', ''gi_raw_std'',
      ''gpl_median'', ''gpl_var'', ''gpl_std'', ''acpl_median'', ''acpl_var'', ''acpl_std'',
      ''avg_gi'', ''avg_gi_raw'', ''avg_gpl'', ''avg_acpl'', ''avg_opponent_elo'', ''w_star'',
      ''TPR'', ''Elo'']"
  by (simp add: av_columns_eq)

lemma wide_facts:
  assumes "player_stats_wide sv df = Inr wide"
  shows "columns wide = columns (av_frame df) @ [''avg_opponent_elo''] @ [''w_star'', ''TPR''] @ [''Elo'']"
    and "distinct (keys wide)"
    and "set (keys wide) = players df"
    and "c \<in> set (columns (av_frame df)) \<Longrightarrow> row_at wide p c = row_at (av_frame df) p c"
    and "p \<in> players df \<Longrightarrow> row_at wide p ''avg_opponent_elo'' = row_at (aoe_frame df) p ''avg_opponent_elo''"
    and "p \<in> players df \<Longrightarrow> row_at wide p ''Elo'' = row_at (ae_frame df) p ''Elo''"
proof -
  from assms obtain T where
    T: "calculate_tpr sv (with_opp df) = Inr T" and wide: "wide = merge LeftJoin T (ae_frame df)"
    by (rule player_stats_wide_InrD)
  have fresh: "''w_star'' \<notin> set (columns (with_opp df))" "''TPR'' \<notin> set (columns (with_opp df))"
    by (simp_all add: with_opp_facts(1) av_columns_eq)
  note t = calculate_tpr_InrD [OF T fresh]
  have Tcols: "columns T = columns (av_frame df) @ [''avg_opponent_elo''] @ [''w_star'', ''TPR'']"
    by (simp add: t(2) with_opp_facts(1))
  have disj: "set (columns T) \<inter> set (columns (ae_frame df)) = {}"
    by (simp add: Tcols ae_frame_facts(1) av_columns_eq)
  have Tkeys: "keys T = keys (av_frame df)" by (simp add: t(1) with_opp_facts(2))
  show "columns wide = columns (av_frame df) @ [''avg_opponent_elo''] @ [''w_star'', ''TPR''] @ [''Elo'']"
    by (simp add: wide merged_columns_disjoint [OF disj] Tcols ae_frame_facts(1))
  have wkeys: "keys wide = keys (av_frame df)"
    by (simp add: wide keys_merge_LeftJoin ae_frame_facts(2) Tkeys)
  show "distinct (keys wide)" "set (keys wide) = players df"
    by (simp_all add: wkeys av_frame_facts)
  have row: "row_at wide p = (if p \<in> players df then combine T (ae_frame df) (row_at T p) (row_at (ae_frame df) p) else nan_row)"
    by (simp add: wide row_at_merge_LeftJoin ae_frame_facts(2) Tkeys av_frame_facts(3))
  show "row_at wide p c = row_at (av_frame df) p c" if c: "c \<in> set (columns (av_frame df))"
  proof -
    have ne: "c \<noteq> ''w_star''" "c \<noteq> ''TPR''" using c by (auto simp: av_columns_eq)
    have "p \<notin> players df \<Longrightarrow> row_at (av_frame df) p c = NaN"
      by (simp add: row_at_absent av_frame_facts(3) nan_row_def)
    then show ?thesis
      using c by (simp add: row combine_disjoint [OF disj] Tcols t(3) [OF ne] with_opp_facts(3) nan_row_def)
  qed
  show "row_at wide p ''avg_opponent_elo'' = row_at (aoe_frame df) p ''avg_opponent_elo''"
    if "p \<in> players df"
    using that by (simp add: row combine_disjoint [OF disj] Tcols t(3) with_opp_facts(4))
  show "row_at wide p ''Elo'' = row_at (ae_frame df) p ''Elo''" if "p \<in> players df"
    using that by (simp add: row combine_disjoint [OF disj] Tcols ae_frame_facts(1) av_columns_eq)
qed

lemma player_stats_wide_total:
  assumes "\<And>a b t. \<exists>v. fst sv a b t = Inr v" "\<And>a b. \<exists>v. snd sv a b = Inr v"
  shows "\<exists>wide. player_stats_wide sv df = Inr wide"
proof -
  have "{''Points'', ''total_game_count'', ''avg_opponent_elo''} \<subseteq> set (columns (with_opp df))"
    by (simp add: with_opp_facts(1) av_columns_eq)
  from calculate_tpr_total [OF this assms] obtain T where "calculate_tpr sv (with_opp df) = Inr T"
    by blast
  then show ?thesis
    by (simp add: player_stats_wide_def averaged_eq avg_opponent_elo_eq calculate_average_elo_eq
        with_opp_def [symmetric])
qed

subsection \<open>The projection\<close>

lemma player_stats_InrD:
  assumes "player_stats sv df = Inr ps"
  obtains wide where "player_stats_wide sv df = Inr wide" "ps = project columns_to_include wide"
  using assms by (auto simp: player_stats_def and_then_eq_Inr dest: select_InrD)

lemma player_stats_total:
  assumes "\<And>a b t. \<exists>v. fst sv a b t = Inr v" "\<And>a b. \<exists>v. snd sv a b = Inr v"
  shows "\<exists>ps. player_stats sv df = Inr ps"
proof -
  obtain wide where w: "player_stats_wide sv df = Inr wide"
    using player_stats_wide_total [OF assms] by blast
  have "set columns_to_include \<subseteq> set (columns wide)"
    unfolding wide_facts(1) [OF w] wide_columns_list by (simp add: columns_to_include_def)
  then show ?thesis by (simp add: player_stats_def w select_Inr)
qed

subsection \<open>The sort\<close>

lemma sort_values_desc_rows:
  assumes "sort_values_desc c ps out"
  shows "set (rows out) = set (rows ps)" "set (keys out) = set (keys ps)"
    "distinct (keys ps) \<Longrightarrow> distinct (keys out)"
proof -
  have m: "mset (rows out) = mset (rows ps)" using assms by (simp add: sort_values_desc_def)
  then show "set (rows out) = set (rows ps)" by (rule mset_eq_setD)
  have "mset (keys out) = mset (keys ps)" unfolding keys_def using m by (metis mset_map)
  then show "set (keys out) = set (keys ps)" "distinct (keys ps) \<Longrightarrow> distinct (keys out)"
    by (auto dest: mset_eq_setD mset_eq_imp_distinct_iff)
qed

subsection \<open>The order of the keys\<close>

lemma rows_by_keys: "distinct (keys F) \<Longrightarrow> rows F = map (\<lambda>p. (p, row_at F p)) (keys F)"
proof -
  assume d: "distinct (keys F)"
  have "\<And>kr. kr \<in> set (rows F) \<Longrightarrow> (fst kr, row_at F (fst kr)) = kr"
    using row_at_mem [OF d] by (metis prod.collapse)
  then have "map (\<lambda>kr. (fst kr, row_at F (fst kr))) (rows F) = rows F"
    by (simp add: map_idI)
  then show ?thesis by (simp add: keys_def comp_def)
qed

lemma foldl_merge_sorted:
  assumes "\<forall>F \<in> set (d # dfs). distinct (keys F)" "distinct (concat (map columns (d # dfs)))" "dfs \<noteq> []"
  shows "sorted (keys (foldl (\<lambda>m df. fillna0 (merge Outer m df)) d dfs))"
proof -
  obtain ys y where dfs: "dfs = ys @ [y]"
    using assms(3) by (cases dfs rule: rev_cases) auto
  have k: "\<forall>F \<in> set (d # ys). distinct (keys F)" using assms(1) by (simp add: dfs)
  have c: "distinct (concat (map columns (d # ys)))" using assms(2) by (auto simp: dfs)
  have "distinct (keys (foldl (\<lambda>m df. fillna0 (merge Outer m df)) d ys))"
    using foldl_merge_fill [OF k c] by blast
  moreover have "distinct (keys y)" using assms(1) by (simp add: dfs)
  ultimately show ?thesis by (simp add: dfs keys_merge_Outer)
qed

lemma sorted_keys_unique:
  assumes "sorted (keys F)" "distinct (keys F)" "set (keys F) = set xs"
  shows "keys F = sort (remdups xs)"
  by (rule sorted_distinct_set_unique) (use assms in simp_all)

lemma keys_merged: "keys (merged df) = sort (remdups (map White df @ map Black df))"
proof (rule sorted_keys_unique)
  have d: "distinct (concat (map columns (ts_frame df # stats df)))"
    by (simp add: ts_frame_facts(1) stats_columns)
  have k: "\<forall>F \<in> set (ts_frame df # stats df). distinct (keys F)"
    by (simp add: ts_frame_facts(2) stats_def)
  have ne: "stats df \<noteq> []" by (simp add: stats_def)
  show "sorted (keys (merged df))"
    unfolding merged_def by (rule foldl_merge_sorted [OF k d ne])
  show "distinct (keys (merged df))" by (rule merged_facts(2))
  show "set (keys (merged df)) = set (map White df @ map Black df)"
    by (simp add: merged_facts(3) players_def)
qed

lemma keys_av_frame: "keys (av_frame df) = sort (remdups (map White df @ map Black df))"
  by (simp add: av_frame_def keys_merged)

lemma keys_wide:
  assumes "player_stats_wide sv df = Inr wide"
  shows "keys wide = sort (remdups (map White df @ map Black df))"
proof -
  from assms obtain T where
    T: "calculate_tpr sv (with_opp df) = Inr T" and wide: "wide = merge LeftJoin T (ae_frame df)"
    by (rule player_stats_wide_InrD)
  have fresh: "''w_star'' \<notin> set (columns (with_opp df))" "''TPR'' \<notin> set (columns (with_opp df))"
    by (simp_all add: with_opp_facts(1) av_columns_eq)
  show ?thesis
    by (simp add: wide keys_merge_LeftJoin ae_frame_facts(2) calculate_tpr_InrD(1) [OF T fresh]
        with_opp_facts(2) keys_av_frame)
qed

subsection \<open>A sorted rearrangement exists\<close>

lemma desc_ok_total: "desc_ok x y \<or> desc_ok y x"
  by (cases x; cases y) (auto simp: desc_ok_def)

lemma desc_ok_trans: "desc_ok x y \<Longrightarrow> desc_ok y z \<Longrightarrow> desc_ok x z"
  by (cases x; cases y; cases z) (auto simp: desc_ok_def)

lemma insert_sorted_wrt:
  assumes tot: "\<And>a b. R a b \<or> R b a" and tr: "\<And>a b c. R a b \<Longrightarrow> R b c \<Longrightarrow> R a c"
  shows "sorted_wrt R ys \<Longrightarrow> \<exists>zs. mset zs = add_mset x (mset ys) \<and> sorted_wrt R zs"
proof (induction ys)
  case Nil
  show ?case by (rule exI [of _ "[x]"]) simp
next
  case (Cons y ys)
  show ?case
  proof (cases "R x y")
    case True
    have "\<forall>z \<in> set ys. R x z" using Cons.prems True tr by auto
    with Cons.prems True have "sorted_wrt R (x # y # ys)" by simp
    then show ?thesis by (intro exI [of _ "x # y # ys"]) simp
  next
    case False
    then have yx: "R y x" using tot by blast
    from Cons obtain zs where zs: "mset zs = add_mset x (mset ys)" "sorted_wrt R zs" by auto
    have "set zs = insert x (set ys)" using zs(1) by (metis mset_eq_setD set_mset_add_mset_insert set_mset_mset)
    with Cons.prems yx have "\<forall>z \<in> set zs. R y z" by auto
    with zs have "mset (y # zs) = add_mset x (mset (y # ys)) \<and> sorted_wrt R (y # zs)" by simp
    then show ?thesis by blast
  qed
qed

lemma sorted_wrt_exists:
  assumes tot: "\<And>a b. R a b \<or> R b a" and tr: "\<And>a b c. R a b \<Longrightarrow> R b c \<Longrightarrow> R a c"
  shows "\<exists>ys. mset ys = mset xs \<and> sorted_wrt R ys"
proof (induction xs)
  case Nil
  show ?case by simp
next
  case (Cons x xs)
  then obtain ys where ys: "mset ys = mset xs" "sorted_wrt R ys" by blast
  from insert_sorted_wrt [where R = R and x = x, OF tot tr ys(2)] ys(1) show ?case by auto
qed

lemma sort_values_desc_exists: "\<exists>out. sort_values_desc c ps out"
proof -
  have "\<exists>ys. mset ys = mset (rows ps) \<and> sorted_wrt (\<lambda>a b. desc_ok (snd a c) (snd b c)) ys"
    by (rule sorted_wrt_exists) (use desc_ok_total desc_ok_trans in blast)+
  then obtain ys where ys: "mset ys = mset (rows ps)" "sorted_wrt (\<lambda>a b. desc_ok (snd a c) (snd b c)) ys"
    by blast
  have "sort_values_desc c ps (ps\<lparr>rows := ys\<rparr>)"
    using ys by (simp add: sort_values_desc_def)
  then show ?thesis ..
qed

subsection \<open>Rows of the written table\<close>

lemma output_row:
  assumes ps: "player_stats sv df = Inr ps" and out: "sort_values_desc c ps out"
    and r: "(p, r) \<in> set (rows out)"
  obtains wide where "player_stats_wide sv df = Inr wide" "p \<in> players df"
    "\<forall>c \<in> set columns_to_include. r c = row_at wide p c"
proof -
  from ps obtain wide where w: "player_stats_wide sv df = Inr wide" and p: "ps = project columns_to_include wide"
    by (rule player_stats_InrD)
  have d: "distinct (keys ps)" by (simp add: p wide_facts(2) [OF w])
  have "(p, r) \<in> set (rows ps)" using sort_values_desc_rows(1) [OF out] r by simp
  then have rp: "row_at ps p = r" "p \<in> set (keys ps)" using d
    by (auto simp: keys_def intro: row_at_mem rev_image_eqI)
  have "p \<in> players df" using rp(2) by (simp add: p wide_facts(3) [OF w])
  moreover have "r c = row_at wide p c" if "c \<in> set columns_to_include" for c
    using that by (simp add: rp(1) [symmetric] p row_at_project)
  ultimately show thesis using w that by blast
qed

lemma output_keys:
  assumes ps: "player_stats sv df = Inr ps" and out: "sort_values_desc c ps out"
  shows "set (keys out) = players df" "distinct (keys out)"
    "keys ps = sort (remdups (map White df @ map Black df))"
proof -
  from ps obtain wide where w: "player_stats_wide sv df = Inr wide" and p: "ps = project columns_to_include wide"
    by (rule player_stats_InrD)
  show "set (keys out) = players df"
    using sort_values_desc_rows(2) [OF out] by (simp add: p wide_facts(3) [OF w])
  show "distinct (keys out)"
    using sort_values_desc_rows(3) [OF out] by (simp add: p wide_facts(2) [OF w])
  show "keys ps = sort (remdups (map White df @ map Black df))"
    by (simp add: p keys_wide [OF w])
qed

subsection \<open>Cells of the wide table\<close>

lemma wide_sums:
  assumes w: "player_stats_wide sv df = Inr wide" and p: "p \<in> players df"
  shows "row_at wide p ''white_gi_sum'' = Num (sum_list (map white_gi (as_white df p)))"
    and "row_at wide p ''black_gi_sum'' = Num (sum_list (map black_gi (as_black df p)))"
    and "row_at wide p ''white_gi_raw_sum'' = Num (sum_list (map white_gi_raw (as_white df p)))"
    and "row_at wide p ''black_gi_raw_sum'' = Num (sum_list (map black_gi_raw (as_black df p)))"
    and "row_at wide p ''white_gpl_sum'' = Num (sum_list (map white_gpl (as_white df p)))"
    and "row_at wide p ''black_gpl_sum'' = Num (sum_list (map black_gpl (as_black df p)))"
    and "row_at wide p ''white_acpl_sum'' = Num (sum_list (map white_acpl (as_white df p)))"
    and "row_at wide p ''black_acpl_sum'' = Num (sum_list (map black_acpl (as_black df p)))"
  using ts_frame_sums [OF p]
  by (simp_all add: wide_facts(4) [OF w] av_columns_eq av_frame_old merged_columns_eq
      merged_ts [OF _ p] ts_frame_facts(1))

lemma wide_counts:
  assumes w: "player_stats_wide sv df = Inr wide" and p: "p \<in> players df"
  shows "row_at wide p ''White_games'' = Num (real (length (as_white df p)))"
    and "row_at wide p ''Black_games'' = Num (real (length (as_black df p)))"
    and "row_at wide p ''total_game_count'' =
         Num (real (length (as_white df p) + length (as_black df p)))"
  using ts_frame_counts [OF p]
  by (simp_all add: wide_facts(4) [OF w] av_columns_eq av_frame_old merged_columns_eq
      merged_ts [OF _ p] ts_frame_facts(1))

lemma wide_totals:
  assumes w: "player_stats_wide sv df = Inr wide" and p: "p \<in> players df"
  shows "row_at wide p ''total_gi_sum'' =
           Num (sum_list (map white_gi (as_white df p)) + sum_list (map black_gi (as_black df p)))"
    and "row_at wide p ''total_gi_raw_sum'' =
           Num (sum_list (map white_gi_raw (as_white df p)) + sum_list (map black_gi_raw (as_black df p)))"
    and "row_at wide p ''total_gpl_sum'' =
           Num (sum_list (map white_gpl (as_white df p)) + sum_list (map black_gpl (as_black df p)))"
    and "row_at wide p ''total_acpl_sum'' =
           Num (sum_list (map white_acpl (as_white df p)) + sum_list (map black_acpl (as_black df p)))"
  using ts_frame_sums [OF p] ts_frame_totals [OF p]
  by (simp_all add: wide_facts(4) [OF w] av_columns_eq av_frame_old merged_columns_eq
      merged_ts [OF _ p] ts_frame_facts(1))

lemma wide_avgs:
  assumes w: "player_stats_wide sv df = Inr wide" and p: "p \<in> players df"
  shows "row_at wide p ''avg_gi'' =
           cell_div (row_at wide p ''total_gi_sum'') (row_at wide p ''total_game_count'')"
    and "row_at wide p ''avg_gi_raw'' =
           cell_div (row_at wide p ''total_gi_raw_sum'') (row_at wide p ''total_game_count'')"
    and "row_at wide p ''avg_gpl'' =
           cell_div (row_at wide p ''total_gpl_sum'') (row_at wide p ''total_game_count'')"
    and "row_at wide p ''avg_acpl'' =
           cell_div (row_at wide p ''total_acpl_sum'') (row_at wide p ''total_game_count'')"
  using av_frame_avgs [OF p]
  by (simp_all add: wide_facts(4) [OF w] av_columns_eq av_frame_old merged_columns_eq
      del: cell_div.simps)

lemma wide_avg_gi:
  assumes w: "player_stats_wide sv df = Inr wide" and p: "p \<in> players df"
  shows "row_at wide p ''avg_gi'' =
           Num ((sum_list (map white_gi (as_white df p)) + sum_list (map black_gi (as_black df p))) /
                real (length (as_white df p) + length (as_black df p)))"
  unfolding wide_avgs(1) [OF w p] wide_totals(1) [OF w p] wide_counts(3) [OF w p]
  by (rule cell_div_count [OF players_games [OF p]])

lemma wide_dispersion:
  assumes w: "player_stats_wide sv df = Inr wide" and p: "p \<in> players df"
  shows "row_at wide p ''gi_var'' = fill0 (var (map gi (pooled df p)))"
    and "row_at wide p ''gi_std'' = fill0 (std (map gi (pooled df p)))"
    and "row_at wide p ''gi_raw_var'' = fill0 (var (map gi_raw (pooled df p)))"
    and "row_at wide p ''gi_raw_std'' = fill0 (std (map gi_raw (pooled df p)))"
    and "row_at wide p ''gpl_var'' = fill0 (var (map gpl (pooled df p)))"
    and "row_at wide p ''gpl_std'' = fill0 (std (map gpl (pooled df p)))"
    and "row_at wide p ''acpl_var'' = fill0 (var (map acpl (pooled df p)))"
    and "row_at wide p ''acpl_std'' = fill0 (std (map acpl (pooled df p)))"
proof -
  have pc: "p \<in> Player ` set (combined_df df)" using p by (simp add: Player_combined_df)
  have m: "row_at (merged df) p c = fill0 (row_at (calculate_statistics (combined_df df) val name) p c)"
    if "calculate_statistics (combined_df df) val name \<in> set (stats df)"
       "c \<in> set (columns (calculate_statistics (combined_df df) val name))" for val name c
    by (rule merged_facts(4) [OF _ that(2) p]) (use that(1) in simp)
  show "row_at wide p ''gi_var'' = fill0 (var (map gi (pooled df p)))"
       "row_at wide p ''gi_std'' = fill0 (std (map gi (pooled df p)))"
    using pc m [of gi "''gi''"]
    by (simp_all add: wide_facts(4) [OF w] av_columns_eq av_frame_old merged_columns_eq stats_def
        row_at_calculate_statistics pooled_def)
  show "row_at wide p ''gi_raw_var'' = fill0 (var (map gi_raw (pooled df p)))"
       "row_at wide p ''gi_raw_std'' = fill0 (std (map gi_raw (pooled df p)))"
    using pc m [of gi_raw "''gi_raw''"]
    by (simp_all add: wide_facts(4) [OF w] av_columns_eq av_frame_old merged_columns_eq stats_def
        row_at_calculate_statistics pooled_def)
  show "row_at wide p ''gpl_var'' = fill0 (var (map gpl (pooled df p)))"
       "row_at wide p ''gpl_std'' = fill0 (std (map gpl (pooled df p)))"
    using pc m [of gpl "''gpl''"]
    by (simp_all add: wide_facts(4) [OF w] av_columns_eq av_frame_old merged_columns_eq stats_def
        row_at_calculate_statistics pooled_def)
  show "row_at wide p ''acpl_var'' = fill0 (var (map acpl (pooled df p)))"
       "row_at wide p ''acpl_std'' = fill0 (std (map acpl (pooled df p)))"
    using pc m [of acpl "''acpl''"]
    by (simp_all add: wide_facts(4) [OF w] av_columns_eq av_frame_old merged_columns_eq stats_def
        row_at_calculate_statistics pooled_def)
qed

subsection \<open>The example inputs\<close>

lemma column_cells_by_keys:
  "distinct (keys F) \<Longrightarrow> column_cells c F = map (\<lambda>p. row_at F p c) (keys F)"
  by (simp add: column_cells_def rows_by_keys [of F] comp_def)

lemma example_solver_total:
  "\<exists>v. fst example_solver a b t = Inr v" "\<exists>v. snd example_solver a b = Inr v"
  by (simp_all add: example_solver_def)

lemma stats_of_eq: "player_stats example_solver df = Inr (stats_of df)"
  using player_stats_total [of example_solver df] example_solver_total
  by (auto simp: stats_of_def the_frame_def)

lemma wide_of_eq: "player_stats_wide example_solver df = Inr (wide_of df)"
  using player_stats_wide_total [of example_solver df] example_solver_total
  by (auto simp: wide_of_def the_frame_def)

lemma stats_of_project: "stats_of df = project columns_to_include (wide_of df)"
  using stats_of_eq [of df] by (simp add: player_stats_def wide_of_eq select_def split: option.splits)

lemma keys_stats_of: "keys (stats_of df) = sort (remdups (map White df @ map Black df))"
  by (simp add: stats_of_project keys_wide [OF wide_of_eq])

lemma distinct_keys_stats_of: "distinct (keys (stats_of df))"
  by (simp add: keys_stats_of)

lemma row_at_stats_of:
  "c \<in> set columns_to_include \<Longrightarrow> row_at (stats_of df) p c = row_at (wide_of df) p c"
  by (simp add: stats_of_project row_at_project)

lemma columns_to_include_mem:
  "''avg_gi'' \<in> set columns_to_include" "''avg_gi_raw'' \<in> set columns_to_include"
  "''avg_gpl'' \<in> set columns_to_include" "''avg_acpl'' \<in> set columns_to_include"
  "''total_game_count'' \<in> set columns_to_include" "''White_games'' \<in> set columns_to_include"
  "''Black_games'' \<in> set columns_to_include" "''Elo'' \<in> set columns_to_include"
  "''gi_var'' \<in> set columns_to_include" "''gi_std'' \<in> set columns_to_include"
  "''gi_raw_var'' \<in> set columns_to_include" "''gi_raw_std'' \<in> set columns_to_include"
  "''gpl_var'' \<in> set columns_to_include" "''gpl_std'' \<in> set columns_to_include"
  "''acpl_var'' \<in> set columns_to_include" "''acpl_std'' \<in> set columns_to_include"
  by (simp_all add: columns_to_include_def)

lemma main_stats_saved:
  assumes "main_stats sv path outdir w (Returned w')" "files w path = Some (GamesCsv df)"
  shows "\<exists>ps out. player_stats sv df = Inr ps \<and> sort_values_desc ''avg_gi'' ps out \<and>
           w' = (ensure_dir outdir w)\<lparr>files := (files (ensure_dir outdir w))
                  (os_path_join outdir ''player_stats.csv'' \<mapsto> StatsCsv out)\<rparr>"
  using assms by (cases rule: main_stats.cases) auto

lemma wide_elo:
  assumes w: "player_stats_wide sv df = Inr wide" and p: "p \<in> players df"
  shows "row_at wide p ''Elo'' =
         Num (round_half_even
               (if 0 < avg_elo_as_white df p \<and> 0 < avg_elo_as_black df p
                then (avg_elo_as_white df p + avg_elo_as_black df p) / 2
                else max (avg_elo_as_white df p) (avg_elo_as_black df p)))"
proof -
  have a: "row_at (elo_avg df) p ''avg_elo_white'' = Num (avg_elo_as_white df p)"
          "row_at (elo_avg df) p ''avg_elo_black'' = Num (avg_elo_as_black df p)"
    by (simp_all add: elo_avg_cells [OF p] avg_elo_as_white_def avg_elo_as_black_def mean_def)
  show ?thesis
    unfolding wide_facts(6) [OF w p] ae_frame_cell [OF p] a
    by (simp add: elo_rule_def py_max_def max_def)
qed

lemma elo_avg_num:
  assumes p: "p \<in> players df"
  shows "row_at (elo_avg df) p ''avg_elo_white'' = Num (avg_elo_as_white df p)"
    and "row_at (elo_avg df) p ''avg_elo_black'' = Num (avg_elo_as_black df p)"
  by (simp_all add: elo_avg_cells [OF p] avg_elo_as_white_def avg_elo_as_black_def mean_def)

lemma keys_elo_avg: "keys (elo_avg df) = sort (remdups (map White df @ map Black df))"
  by (rule sorted_keys_unique)
     (simp_all add: elo_avg_facts players_def, simp add: elo_avg_def keys_merge_Outer)

lemma example_players:
  "players example_games = {''A'', ''B''}" "players single_game = {''A'', ''B''}"
  "players tie_games = {''A'', ''B''}" "players negative_elo_games = {''A'', ''B''}"
  by (auto simp: players_def example_games_def single_game_def tie_games_def negative_elo_games_def
      game_1_def game_2_def)

lemma example_keys:
  "keys (stats_of example_games) = [''A'', ''B'']" "keys (stats_of single_game) = [''A'', ''B'']"
  "keys (stats_of tie_games) = [''A'', ''B'']" "keys (stats_of negative_elo_games) = [''A'', ''B'']"
  by (simp_all add: keys_stats_of example_games_def single_game_def tie_games_def
      negative_elo_games_def game_1_def game_2_def)

lemma example_row_mem:
  "p \<in> players df \<Longrightarrow> (p, row_at (stats_of df) p) \<in> set (rows (stats_of df))"
  by (rule mem_row_at) (simp add: keys_stats_of players_def)

lemma stats_of_avg_gi:
  "p \<in> players df \<Longrightarrow> row_at (stats_of df) p ''avg_gi'' =
     Num ((sum_list (map white_gi (as_white df p)) + sum_list (map black_gi (as_black df p))) /
          real (length (as_white df p) + length (as_black df p)))"
  by (simp add: row_at_stats_of columns_to_include_mem wide_avg_gi [OF wide_of_eq])

lemma example_games_sorted: "sort_values_desc ''avg_gi'' (stats_of example_games) (stats_of example_games)"
proof -
  have "rows (stats_of example_games) =
        [(''A'', row_at (stats_of example_games) ''A''), (''B'', row_at (stats_of example_games) ''B'')]"
    by (simp add: rows_by_keys [OF distinct_keys_stats_of] example_keys)
  moreover have "row_at (stats_of example_games) ''A'' ''avg_gi'' = Num (155 / 2)"
    unfolding stats_of_avg_gi [of "''A''" example_games, unfolded example_players, simplified]
    by (simp add: as_white_def as_black_def example_games_def game_1_def game_2_def)
  moreover have "row_at (stats_of example_games) ''B'' ''avg_gi'' = Num 65"
    unfolding stats_of_avg_gi [of "''B''" example_games, unfolded example_players, simplified]
    by (simp add: as_white_def as_black_def example_games_def game_1_def game_2_def)
  ultimately show ?thesis by (simp add: sort_values_desc_def desc_ok_def)
qed

lemma single_game_sorted: "sort_values_desc ''avg_gi'' (stats_of single_game) (stats_of single_game)"
proof -
  have "rows (stats_of single_game) =
        [(''A'', row_at (stats_of single_game) ''A''), (''B'', row_at (stats_of single_game) ''B'')]"
    by (simp add: rows_by_keys [OF distinct_keys_stats_of] example_keys)
  moreover have "row_at (stats_of single_game) ''A'' ''avg_gi'' = Num 80"
    unfolding stats_of_avg_gi [of "''A''" single_game, unfolded example_players, simplified]
    by (simp add: as_white_def as_black_def single_game_def game_1_def)
  moreover have "row_at (stats_of single_game) ''B'' ''avg_gi'' = Num 60"
    unfolding stats_of_avg_gi [of "''B''" single_game, unfolded example_players, simplified]
    by (simp add: as_white_def as_black_def single_game_def game_1_def)
  ultimately show ?thesis by (simp add: sort_values_desc_def desc_ok_def)
qed

subsection \<open>The properties of the specification\<close>

text \<open>
  C1 (union completeness). The players of the written table are the values of the White
  column and of the Black column of the game table, no more and no fewer: the keys of any
  table that the sort can produce from the projected statistics are that union.
\<close>

theorem union_completeness:
  assumes "player_stats sv df = Inr ps" and "sort_values_desc ''avg_gi'' ps out"
  shows "set (keys out) = set (map White df) \<union> set (map Black df)"
  using output_keys(1) [OF assms] by (simp add: players_def)

theorem union_completeness_witness:
  "player_stats example_solver example_games = Inr (stats_of example_games) \<and>
   sort_values_desc ''avg_gi'' (stats_of example_games) (stats_of example_games) \<and>
   set (keys (stats_of example_games)) = {''A'', ''B''}"
  using union_completeness [OF stats_of_eq example_games_sorted] stats_of_eq [of example_games]
    example_games_sorted
  by (simp add: example_games_def game_1_def game_2_def insert_commute)

text \<open>
  C7 (game count identity). In every row of the written table, \<open>total_game_count\<close> is the
  sum of \<open>White_games\<close> and \<open>Black_games\<close>, and these two are the numbers of rows of the
  game table that name the player as White and as Black (zero for a role never played).
\<close>

theorem game_count_identity:
  assumes "player_stats sv df = Inr ps" and "sort_values_desc ''avg_gi'' ps out"
    and "(p, r) \<in> set (rows out)"
  shows "r ''total_game_count'' = cell_add (r ''White_games'') (r ''Black_games'') \<and>
         r ''White_games'' = Num (real (length (filter (\<lambda>g. White g = p) df))) \<and>
         r ''Black_games'' = Num (real (length (filter (\<lambda>g. Black g = p) df)))"
proof -
  from assms obtain wide where w: "player_stats_wide sv df = Inr wide" and p: "p \<in> players df"
    and r: "\<forall>c \<in> set columns_to_include. r c = row_at wide p c"
    by (rule output_row)
  show ?thesis
    using r by (simp add: columns_to_include_mem wide_counts [OF w p] as_white_def as_black_def)
qed

theorem game_count_identity_witness:
  "player_stats example_solver example_games = Inr (stats_of example_games) \<and>
   sort_values_desc ''avg_gi'' (stats_of example_games) (stats_of example_games) \<and>
   (''A'', row_at (stats_of example_games) ''A'') \<in> set (rows (stats_of example_games)) \<and>
   row_at (stats_of example_games) ''A'' ''total_game_count'' = Num 2 \<and>
   row_at (stats_of example_games) ''A'' ''White_games'' = Num 1 \<and>
   row_at (stats_of example_games) ''A'' ''Black_games'' = Num 1"
proof -
  have m: "(''A'', row_at (stats_of example_games) ''A'') \<in> set (rows (stats_of example_games))"
    by (rule example_row_mem) (simp add: example_players)
  show ?thesis
    using game_count_identity [OF stats_of_eq example_games_sorted m] stats_of_eq [of example_games]
      example_games_sorted m
    by (simp add: example_games_def game_1_def game_2_def)
qed

text \<open>
  C10. Every row of the written table has a \<open>total_game_count\<close> of at least one, so the
  denominator of every per-game average is not zero.
\<close>

theorem total_game_count_positive:
  assumes "player_stats sv df = Inr ps" and "sort_values_desc ''avg_gi'' ps out"
    and "(p, r) \<in> set (rows out)"
  shows "\<exists>n. r ''total_game_count'' = Num (real n) \<and> 1 \<le> n"
proof -
  from assms obtain wide where w: "player_stats_wide sv df = Inr wide" and p: "p \<in> players df"
    and r: "\<forall>c \<in> set columns_to_include. r c = row_at wide p c"
    by (rule output_row)
  have "r ''total_game_count'' = Num (real (length (as_white df p) + length (as_black df p)))"
    using r by (simp add: columns_to_include_mem wide_counts [OF w p])
  moreover have "1 \<le> length (as_white df p) + length (as_black df p)"
    using players_games [OF p] by linarith
  ultimately show ?thesis by blast
qed

theorem total_game_count_positive_witness:
  "player_stats example_solver example_games = Inr (stats_of example_games) \<and>
   sort_values_desc ''avg_gi'' (stats_of example_games) (stats_of example_games) \<and>
   (''B'', row_at (stats_of example_games) ''B'') \<in> set (rows (stats_of example_games)) \<and>
   (\<exists>n. row_at (stats_of example_games) ''B'' ''total_game_count'' = Num (real n) \<and> 1 \<le> n)"
proof -
  have m: "(''B'', row_at (stats_of example_games) ''B'') \<in> set (rows (stats_of example_games))"
    by (rule example_row_mem) (simp add: example_players)
  show ?thesis
    using total_game_count_positive [OF stats_of_eq example_games_sorted m]
      stats_of_eq [of example_games] example_games_sorted m
    by simp
qed

text \<open>
  C5 (average identity). For every row of the written table whose \<open>total_game_count\<close> is a
  positive number \<open>n\<close>, each of \<open>avg_gi\<close>, \<open>avg_gi_raw\<close>, \<open>avg_gpl\<close> and \<open>avg_acpl\<close> is the
  matching total sum of the player in the wide table divided by \<open>n\<close>.
\<close>

theorem average_identity:
  assumes "player_stats_wide sv df = Inr wide" and "player_stats sv df = Inr ps"
    and "sort_values_desc ''avg_gi'' ps out" and "(p, r) \<in> set (rows out)"
    and "r ''total_game_count'' = Num n" and "0 < n"
  shows "(\<exists>s. row_at wide p ''total_gi_sum'' = Num s \<and> r ''avg_gi'' = Num (s / n)) \<and>
         (\<exists>s. row_at wide p ''total_gi_raw_sum'' = Num s \<and> r ''avg_gi_raw'' = Num (s / n)) \<and>
         (\<exists>s. row_at wide p ''total_gpl_sum'' = Num s \<and> r ''avg_gpl'' = Num (s / n)) \<and>
         (\<exists>s. row_at wide p ''total_acpl_sum'' = Num s \<and> r ''avg_acpl'' = Num (s / n))"
proof -
  from assms(2-4) obtain wide' where w': "player_stats_wide sv df = Inr wide'" and p: "p \<in> players df"
    and r: "\<forall>c \<in> set columns_to_include. r c = row_at wide' p c"
    by (rule output_row)
  have w: "player_stats_wide sv df = Inr wide" and eq: "wide' = wide"
    using assms(1) w' by simp_all
  have n: "n = real (length (as_white df p) + length (as_black df p))"
    using r assms(5) by (simp add: eq columns_to_include_mem wide_counts(3) [OF w p])
  have pos: "0 < length (as_white df p) + length (as_black df p)" by (rule players_games [OF p])
  have avg: "r ''avg_gi'' = row_at wide p ''avg_gi''" "r ''avg_gi_raw'' = row_at wide p ''avg_gi_raw''"
    "r ''avg_gpl'' = row_at wide p ''avg_gpl''" "r ''avg_acpl'' = row_at wide p ''avg_acpl''"
    using r by (simp_all add: eq columns_to_include_mem)
  show ?thesis
    unfolding avg wide_avgs [OF w p] wide_totals [OF w p] wide_counts(3) [OF w p] n
      cell_div_count [OF pos]
    by simp
qed

theorem average_identity_witness:
  "player_stats_wide example_solver example_games = Inr (wide_of example_games) \<and>
   player_stats example_solver example_games = Inr (stats_of example_games) \<and>
   sort_values_desc ''avg_gi'' (stats_of example_games) (stats_of example_games) \<and>
   (''A'', row_at (stats_of example_games) ''A'') \<in> set (rows (stats_of example_games)) \<and>
   row_at (stats_of example_games) ''A'' ''total_game_count'' = Num 2 \<and> (0 :: real) < 2 \<and>
   (\<exists>s. row_at (wide_of example_games) ''A'' ''total_gi_sum'' = Num s \<and>
        row_at (stats_of example_games) ''A'' ''avg_gi'' = Num (s / 2))"
proof -
  have m: "(''A'', row_at (stats_of example_games) ''A'') \<in> set (rows (stats_of example_games))"
    by (rule example_row_mem) (simp add: example_players)
  have pA: "''A'' \<in> players example_games" by (simp add: example_players)
  have n: "row_at (stats_of example_games) ''A'' ''total_game_count'' = Num 2"
    unfolding row_at_stats_of [OF columns_to_include_mem(5)] wide_counts(3) [OF wide_of_eq pA]
    by (simp add: as_white_def as_black_def example_games_def game_1_def game_2_def)
  show ?thesis
    using average_identity [OF wide_of_eq stats_of_eq example_games_sorted m n]
      wide_of_eq [of example_games] stats_of_eq [of example_games] example_games_sorted m n
    by simp
qed

text \<open>
  C6 (sum identity). For every player of the written table, each total sum of the wide
  table is the sum of its White-side and Black-side columns, and a side column is the sum
  of the metric over the games the player played in that role: zero when there are none.
\<close>

theorem sum_identity:
  assumes "player_stats_wide sv df = Inr wide" and "player_stats sv df = Inr ps"
    and "sort_values_desc ''avg_gi'' ps out" and "(p, r) \<in> set (rows out)"
  shows "row_at wide p ''total_gi_sum'' =
           cell_add (row_at wide p ''white_gi_sum'') (row_at wide p ''black_gi_sum'') \<and>
         row_at wide p ''total_gi_raw_sum'' =
           cell_add (row_at wide p ''white_gi_raw_sum'') (row_at wide p ''black_gi_raw_sum'') \<and>
         row_at wide p ''total_gpl_sum'' =
           cell_add (row_at wide p ''white_gpl_sum'') (row_at wide p ''black_gpl_sum'') \<and>
         row_at wide p ''total_acpl_sum'' =
           cell_add (row_at wide p ''white_acpl_sum'') (row_at wide p ''black_acpl_sum'') \<and>
         row_at wide p ''white_gi_sum'' = Num (sum_list (map white_gi (filter (\<lambda>g. White g = p) df))) \<and>
         row_at wide p ''black_gi_sum'' = Num (sum_list (map black_gi (filter (\<lambda>g. Black g = p) df))) \<and>
         row_at wide p ''white_gi_raw_sum'' = Num (sum_list (map white_gi_raw (filter (\<lambda>g. White g = p) df))) \<and>
         row_at wide p ''black_gi_raw_sum'' = Num (sum_list (map black_gi_raw (filter (\<lambda>g. Black g = p) df))) \<and>
         row_at wide p ''white_gpl_sum'' = Num (sum_list (map white_gpl (filter (\<lambda>g. White g = p) df))) \<and>
         row_at wide p ''black_gpl_sum'' = Num (sum_list (map black_gpl (filter (\<lambda>g. Black g = p) df))) \<and>
         row_at wide p ''white_acpl_sum'' = Num (sum_list (map white_acpl (filter (\<lambda>g. White g = p) df))) \<and>
         row_at wide p ''black_acpl_sum'' = Num (sum_list (map black_acpl (filter (\<lambda>g. Black g = p) df)))"
proof -
  from assms(2-4) obtain wide' where "player_stats_wide sv df = Inr wide'" and p: "p \<in> players df"
    by (rule output_row)
  show ?thesis
    unfolding wide_totals [OF assms(1) p] wide_sums [OF assms(1) p]
    by (simp add: as_white_def as_black_def)
qed

theorem sum_identity_witness:
  "player_stats_wide example_solver example_games = Inr (wide_of example_games) \<and>
   player_stats example_solver example_games = Inr (stats_of example_games) \<and>
   sort_values_desc ''avg_gi'' (stats_of example_games) (stats_of example_games) \<and>
   (''A'', row_at (stats_of example_games) ''A'') \<in> set (rows (stats_of example_games)) \<and>
   row_at (wide_of example_games) ''A'' ''white_gi_sum'' = Num 80 \<and>
   row_at (wide_of example_games) ''A'' ''black_gi_sum'' = Num 75 \<and>
   row_at (wide_of example_games) ''A'' ''total_gi_sum'' = Num 155"
proof -
  have m: "(''A'', row_at (stats_of example_games) ''A'') \<in> set (rows (stats_of example_games))"
    by (rule example_row_mem) (simp add: example_players)
  have "row_at (wide_of example_games) ''A'' ''white_gi_sum'' = Num 80 \<and>
        row_at (wide_of example_games) ''A'' ''black_gi_sum'' = Num 75 \<and>
        row_at (wide_of example_games) ''A'' ''total_gi_sum'' = Num 155"
    using sum_identity [OF wide_of_eq stats_of_eq example_games_sorted m]
    by (simp add: example_games_def game_1_def game_2_def)
  then show ?thesis
    using wide_of_eq [of example_games] stats_of_eq [of example_games] example_games_sorted m
    by simp
qed

text \<open>
  C8 (average opponent rating). For every player of the written table, the column
  \<open>avg_opponent_elo\<close> of the wide table (the value handed to the rating solver) is the sum
  of BlackElo over the player's games as White and of WhiteElo over the player's games as
  Black, divided by the player's total game count, which is the \<open>total_game_count\<close> of the row.
\<close>

theorem average_opponent_rating:
  assumes "player_stats_wide sv df = Inr wide" and "player_stats sv df = Inr ps"
    and "sort_values_desc ''avg_gi'' ps out" and "(p, r) \<in> set (rows out)"
  shows "row_at wide p ''avg_opponent_elo'' =
           Num ((sum_list (map BlackElo (filter (\<lambda>g. White g = p) df)) +
                 sum_list (map WhiteElo (filter (\<lambda>g. Black g = p) df))) /
                real (length (filter (\<lambda>g. White g = p) df) + length (filter (\<lambda>g. Black g = p) df))) \<and>
         r ''total_game_count'' =
           Num (real (length (filter (\<lambda>g. White g = p) df) + length (filter (\<lambda>g. Black g = p) df)))"
proof -
  from assms(2-4) obtain wide' where w': "player_stats_wide sv df = Inr wide'" and p: "p \<in> players df"
    and r: "\<forall>c \<in> set columns_to_include. r c = row_at wide' p c"
    by (rule output_row)
  have eq: "wide' = wide" using assms(1) w' by simp
  have "r ''total_game_count'' = row_at wide p ''total_game_count''"
    using r by (simp add: eq columns_to_include_mem)
  then show ?thesis
    unfolding wide_facts(5) [OF assms(1) p] aoe_frame_cell [OF p] wide_counts(3) [OF assms(1) p]
    by (simp add: as_white_def as_black_def)
qed

theorem average_opponent_rating_witness:
  "player_stats_wide example_solver example_games = Inr (wide_of example_games) \<and>
   player_stats example_solver example_games = Inr (stats_of example_games) \<and>
   sort_values_desc ''avg_gi'' (stats_of example_games) (stats_of example_games) \<and>
   (''B'', row_at (stats_of example_games) ''B'') \<in> set (rows (stats_of example_games)) \<and>
   row_at (wide_of example_games) ''B'' ''avg_opponent_elo'' = Num 1510 \<and>
   row_at (stats_of example_games) ''B'' ''total_game_count'' = Num 2"
proof -
  have m: "(''B'', row_at (stats_of example_games) ''B'') \<in> set (rows (stats_of example_games))"
    by (rule example_row_mem) (simp add: example_players)
  have "row_at (wide_of example_games) ''B'' ''avg_opponent_elo'' = Num 1510 \<and>
        row_at (stats_of example_games) ''B'' ''total_game_count'' = Num 2"
    using average_opponent_rating [OF wide_of_eq stats_of_eq example_games_sorted m]
    by (simp add: example_games_def game_1_def game_2_def)
  then show ?thesis
    using wide_of_eq [of example_games] stats_of_eq [of example_games] example_games_sorted m
    by simp
qed

text \<open>
  C9 (missing input file). When nothing exists at the input path, the run has exactly one
  outcome: it returns, without raising, in the world it started in with the line
  \<open>File not found: <path>\<close> added to the output; no file is created or changed.
\<close>

theorem missing_input_file:
  assumes "files w csv_all_games_path = None"
  shows "(main_stats sv csv_all_games_path player_stats_output_dir w oc \<longleftrightarrow>
            oc = Returned (w\<lparr>stdout := stdout w @ [''File not found: '' @ csv_all_games_path]\<rparr>)) \<and>
         files (w\<lparr>stdout := stdout w @ [''File not found: '' @ csv_all_games_path]\<rparr>) = files w"
proof -
  have only: "oc = Returned (w\<lparr>stdout := stdout w @ [''File not found: '' @ csv_all_games_path]\<rparr>)"
    if "main_stats sv csv_all_games_path player_stats_output_dir w oc"
    using that assms by (cases rule: main_stats.cases) simp_all
  have runs: "main_stats sv csv_all_games_path player_stats_output_dir w
      (Returned (w\<lparr>stdout := stdout w @ [''File not found: '' @ csv_all_games_path]\<rparr>))"
    by (rule main_stats.missing [OF assms])
  have "main_stats sv csv_all_games_path player_stats_output_dir w oc \<longleftrightarrow>
        oc = Returned (w\<lparr>stdout := stdout w @ [''File not found: '' @ csv_all_games_path]\<rparr>)"
  proof
    assume "main_stats sv csv_all_games_path player_stats_output_dir w oc"
    then show "oc = Returned (w\<lparr>stdout := stdout w @ [''File not found: '' @ csv_all_games_path]\<rparr>)"
      by (rule only)
  next
    assume "oc = Returned (w\<lparr>stdout := stdout w @ [''File not found: '' @ csv_all_games_path]\<rparr>)"
    then show "main_stats sv csv_all_games_path player_stats_output_dir w oc"
      using runs by simp
  qed
  then show ?thesis by simp
qed

theorem missing_input_file_witness:
  "files no_files ''games.csv'' = None \<and>
   main_stats example_solver ''games.csv'' ''out'' no_files
     (Returned (no_files\<lparr>stdout := [''File not found: games.csv'']\<rparr>)) \<and>
   files (no_files\<lparr>stdout := [''File not found: games.csv'']\<rparr>) = files no_files"
proof -
  have f: "files no_files ''games.csv'' = None" by (simp add: no_files_def)
  show ?thesis
    using missing_input_file [OF f, of example_solver "''out''"
        "Returned (no_files\<lparr>stdout := [''File not found: games.csv'']\<rparr>)"] f
    by (simp add: no_files_def)
qed

lemma two_rows:
  assumes "keys (stats_of df) = [''A'', ''B'']"
  shows "rows (stats_of df) = [(''A'', row_at (stats_of df) ''A''), (''B'', row_at (stats_of df) ''B'')]"
  by (simp add: rows_by_keys [OF distinct_keys_stats_of] assms)

lemma negative_elo_games_sorted:
  "sort_values_desc ''avg_gi'' (stats_of negative_elo_games) (stats_of negative_elo_games)"
proof -
  have "row_at (stats_of negative_elo_games) ''A'' ''avg_gi'' = Num 80"
    unfolding stats_of_avg_gi [of "''A''" negative_elo_games, unfolded example_players, simplified]
    by (simp add: as_white_def as_black_def negative_elo_games_def game_1_def)
  moreover have "row_at (stats_of negative_elo_games) ''B'' ''avg_gi'' = Num 60"
    unfolding stats_of_avg_gi [of "''B''" negative_elo_games, unfolded example_players, simplified]
    by (simp add: as_white_def as_black_def negative_elo_games_def game_1_def)
  ultimately show ?thesis
    by (simp add: sort_values_desc_def desc_ok_def two_rows [OF example_keys(4)])
qed

text \<open>
  C2 (single-colour Elo rule), as the code has it. Let \<open>w\<close> and \<open>b\<close> be the player's average
  Elo as White and as Black, zero for a colour never played. The \<open>Elo\<close> of the player's row
  is the rounded mean of \<open>w\<close> and \<open>b\<close> when both are positive, and the rounded larger of the
  two otherwise; so it is the rounded populated average when that one is positive and the
  other is zero. The test of the code is \<open>> 0\<close>, not \<open>\<noteq> 0\<close>.
\<close>

theorem elo_rule_positive:
  assumes "player_stats sv df = Inr ps" and "sort_values_desc ''avg_gi'' ps out"
    and "(p, r) \<in> set (rows out)"
  shows "row_at (elo_avg df) p ''avg_elo_white'' = Num (avg_elo_as_white df p) \<and>
         row_at (elo_avg df) p ''avg_elo_black'' = Num (avg_elo_as_black df p) \<and>
         r ''Elo'' = Num (round_half_even
                      (if 0 < avg_elo_as_white df p \<and> 0 < avg_elo_as_black df p
                       then (avg_elo_as_white df p + avg_elo_as_black df p) / 2
                       else max (avg_elo_as_white df p) (avg_elo_as_black df p))) \<and>
         (0 < avg_elo_as_white df p \<and> avg_elo_as_black df p = 0 \<longrightarrow>
            r ''Elo'' = Num (round_half_even (avg_elo_as_white df p))) \<and>
         (avg_elo_as_white df p = 0 \<and> 0 < avg_elo_as_black df p \<longrightarrow>
            r ''Elo'' = Num (round_half_even (avg_elo_as_black df p)))"
proof -
  from assms obtain wide where w: "player_stats_wide sv df = Inr wide" and p: "p \<in> players df"
    and r: "\<forall>c \<in> set columns_to_include. r c = row_at wide p c"
    by (rule output_row)
  have "r ''Elo'' = row_at wide p ''Elo''" using r by (simp add: columns_to_include_mem)
  then show ?thesis
    unfolding wide_elo [OF w p] elo_avg_num [OF p] by simp
qed

theorem elo_rule_positive_witness:
  "player_stats example_solver example_games = Inr (stats_of example_games) \<and>
   sort_values_desc ''avg_gi'' (stats_of example_games) (stats_of example_games) \<and>
   (''A'', row_at (stats_of example_games) ''A'') \<in> set (rows (stats_of example_games)) \<and>
   row_at (elo_avg example_games) ''A'' ''avg_elo_white'' = Num 1500 \<and>
   row_at (elo_avg example_games) ''A'' ''avg_elo_black'' = Num 1520 \<and>
   row_at (stats_of example_games) ''A'' ''Elo'' = Num 1510"
proof -
  have m: "(''A'', row_at (stats_of example_games) ''A'') \<in> set (rows (stats_of example_games))"
    by (rule example_row_mem) (simp add: example_players)
  have w: "avg_elo_as_white example_games ''A'' = 1500" "avg_elo_as_black example_games ''A'' = 1520"
    by (simp_all add: avg_elo_as_white_def avg_elo_as_black_def as_white_def as_black_def
        example_games_def game_1_def game_2_def)
  have "round_half_even 1510 = 1510"
    by (simp add: round_half_even_def Let_def)
  then have "row_at (elo_avg example_games) ''A'' ''avg_elo_white'' = Num 1500 \<and>
        row_at (elo_avg example_games) ''A'' ''avg_elo_black'' = Num 1520 \<and>
        row_at (stats_of example_games) ''A'' ''Elo'' = Num 1510"
    using elo_rule_positive [OF stats_of_eq example_games_sorted m]
    by (simp add: w)
  then show ?thesis
    using stats_of_eq [of example_games] example_games_sorted m by simp
qed

text \<open>
  With nonzero in place of positive the rule fails for a negative rating: a player who
  only played White, with an average Elo of -100 there and the zero of the fill as Black,
  has one nonzero average, and the \<open>Elo\<close> of the row is 0, not the rounded -100.
\<close>

theorem elo_rule_nonzero_counterexample:
  "column_cells ''avg_elo_white'' (elo_avg negative_elo_games) = [Num (- 100), Num 0] \<and>
   column_cells ''avg_elo_black'' (elo_avg negative_elo_games) = [Num 0, Num 1400] \<and>
   player_stats example_solver negative_elo_games = Inr (stats_of negative_elo_games) \<and>
   sort_values_desc ''avg_gi'' (stats_of negative_elo_games) (stats_of negative_elo_games) \<and>
   keys (stats_of negative_elo_games) = [''A'', ''B''] \<and>
   column_cells ''Elo'' (stats_of negative_elo_games) = [Num 0, Num 1400] \<and>
   py_round (Num (- 100)) = Num (- 100)"
proof -
  have k: "keys (elo_avg negative_elo_games) = [''A'', ''B'']"
    by (simp add: keys_elo_avg negative_elo_games_def game_1_def)
  have pA: "''A'' \<in> players negative_elo_games" and pB: "''B'' \<in> players negative_elo_games"
    by (simp_all add: example_players)
  have v: "avg_elo_as_white negative_elo_games ''A'' = - 100" "avg_elo_as_black negative_elo_games ''A'' = 0"
    "avg_elo_as_white negative_elo_games ''B'' = 0" "avg_elo_as_black negative_elo_games ''B'' = 1400"
    by (simp_all add: avg_elo_as_white_def avg_elo_as_black_def as_white_def as_black_def
        negative_elo_games_def game_1_def)
  have rnd: "round_half_even 0 = 0" "round_half_even 1400 = 1400" "round_half_even (- 100) = - 100"
    by (simp_all add: round_half_even_def Let_def)
  have c1: "column_cells ''avg_elo_white'' (elo_avg negative_elo_games) = [Num (- 100), Num 0]"
    by (simp add: column_cells_by_keys elo_avg_facts(2) k elo_avg_num [OF pA] elo_avg_num [OF pB] v)
  have c2: "column_cells ''avg_elo_black'' (elo_avg negative_elo_games) = [Num 0, Num 1400]"
    by (simp add: column_cells_by_keys elo_avg_facts(2) k elo_avg_num [OF pA] elo_avg_num [OF pB] v)
  have c3: "column_cells ''Elo'' (stats_of negative_elo_games) = [Num 0, Num 1400]"
    by (simp add: column_cells_by_keys distinct_keys_stats_of example_keys row_at_stats_of
        columns_to_include_mem wide_elo [OF wide_of_eq pA] wide_elo [OF wide_of_eq pB] v rnd)
  show ?thesis
    using c1 c2 c3 stats_of_eq [of negative_elo_games] negative_elo_games_sorted example_keys(4) rnd
    by simp
qed

lemma dispersion_single:
  assumes "length (pooled df p) = 1"
  shows "var (map gi (pooled df p)) = NaN" "std (map gi (pooled df p)) = NaN"
    "var (map gi_raw (pooled df p)) = NaN" "std (map gi_raw (pooled df p)) = NaN"
    "var (map gpl (pooled df p)) = NaN" "std (map gpl (pooled df p)) = NaN"
    "var (map acpl (pooled df p)) = NaN" "std (map acpl (pooled df p)) = NaN"
  using assms by (simp_all add: var_single std_single)

lemma statistics_cells:
  assumes "p \<in> players df"
  shows "row_at (calculate_statistics (combined_df df) val name) p (name @ ''_var'') = var (map val (pooled df p))"
    and "row_at (calculate_statistics (combined_df df) val name) p (name @ ''_std'') = std (map val (pooled df p))"
  using assms by (simp_all add: row_at_calculate_statistics Player_combined_df pooled_def)

text \<open>
  C4 (single-observation dispersion), as the code has it. For a player with exactly one
  pooled observation, \<open>calculate_statistics\<close> returns (it is a total function: nothing is
  raised) and gives NaN for the variance and the standard deviation of each of gi, gi_raw,
  gpl and acpl; the \<open>fillna(0)\<close> of \<open>merge_dataframes\<close> then replaces them, and the player's
  row of the written table carries the number 0 in all eight columns.
\<close>

theorem single_observation_dispersion:
  assumes "player_stats sv df = Inr ps" and "sort_values_desc ''avg_gi'' ps out"
    and "(p, r) \<in> set (rows out)"
    and "length (filter (\<lambda>ob. Player ob = p) (combined_df df)) = 1"
  shows "row_at (calculate_statistics (combined_df df) gi ''gi'') p ''gi_var'' = NaN \<and>
         row_at (calculate_statistics (combined_df df) gi ''gi'') p ''gi_std'' = NaN \<and>
         row_at (calculate_statistics (combined_df df) gi_raw ''gi_raw'') p ''gi_raw_var'' = NaN \<and>
         row_at (calculate_statistics (combined_df df) gi_raw ''gi_raw'') p ''gi_raw_std'' = NaN \<and>
         row_at (calculate_statistics (combined_df df) gpl ''gpl'') p ''gpl_var'' = NaN \<and>
         row_at (calculate_statistics (combined_df df) gpl ''gpl'') p ''gpl_std'' = NaN \<and>
         row_at (calculate_statistics (combined_df df) acpl ''acpl'') p ''acpl_var'' = NaN \<and>
         row_at (calculate_statistics (combined_df df) acpl ''acpl'') p ''acpl_std'' = NaN \<and>
         r ''gi_var'' = Num 0 \<and> r ''gi_std'' = Num 0 \<and>
         r ''gi_raw_var'' = Num 0 \<and> r ''gi_raw_std'' = Num 0 \<and>
         r ''gpl_var'' = Num 0 \<and> r ''gpl_std'' = Num 0 \<and>
         r ''acpl_var'' = Num 0 \<and> r ''acpl_std'' = Num 0"
proof -
  from assms(1-3) obtain wide where w: "player_stats_wide sv df = Inr wide" and p: "p \<in> players df"
    and r: "\<forall>c \<in> set columns_to_include. r c = row_at wide p c"
    by (rule output_row)
  have one: "length (pooled df p) = 1" using assms(4) by (simp add: pooled_def)
  have a: "row_at (calculate_statistics (combined_df df) gi ''gi'') p ''gi_var'' = NaN"
          "row_at (calculate_statistics (combined_df df) gi ''gi'') p ''gi_std'' = NaN"
          "row_at (calculate_statistics (combined_df df) gi_raw ''gi_raw'') p ''gi_raw_var'' = NaN"
          "row_at (calculate_statistics (combined_df df) gi_raw ''gi_raw'') p ''gi_raw_std'' = NaN"
          "row_at (calculate_statistics (combined_df df) gpl ''gpl'') p ''gpl_var'' = NaN"
          "row_at (calculate_statistics (combined_df df) gpl ''gpl'') p ''gpl_std'' = NaN"
          "row_at (calculate_statistics (combined_df df) acpl ''acpl'') p ''acpl_var'' = NaN"
          "row_at (calculate_statistics (combined_df df) acpl ''acpl'') p ''acpl_std'' = NaN"
    using statistics_cells [OF p, of gi "''gi''"] statistics_cells [OF p, of gi_raw "''gi_raw''"]
      statistics_cells [OF p, of gpl "''gpl''"] statistics_cells [OF p, of acpl "''acpl''"]
    by (simp_all add: dispersion_single [OF one])
  have b: "r ''gi_var'' = Num 0" "r ''gi_std'' = Num 0" "r ''gi_raw_var'' = Num 0"
          "r ''gi_raw_std'' = Num 0" "r ''gpl_var'' = Num 0" "r ''gpl_std'' = Num 0"
          "r ''acpl_var'' = Num 0" "r ''acpl_std'' = Num 0"
    using r by (simp_all add: columns_to_include_mem wide_dispersion [OF w p] dispersion_single [OF one])
  from a b show ?thesis by simp
qed

theorem single_observation_dispersion_witness:
  "player_stats example_solver single_game = Inr (stats_of single_game) \<and>
   sort_values_desc ''avg_gi'' (stats_of single_game) (stats_of single_game) \<and>
   (''A'', row_at (stats_of single_game) ''A'') \<in> set (rows (stats_of single_game)) \<and>
   length (filter (\<lambda>ob. Player ob = ''A'') (combined_df single_game)) = 1 \<and>
   row_at (calculate_statistics (combined_df single_game) gi ''gi'') ''A'' ''gi_var'' = NaN \<and>
   row_at (calculate_statistics (combined_df single_game) gi ''gi'') ''A'' ''gi_std'' = NaN \<and>
   row_at (stats_of single_game) ''A'' ''gi_var'' = Num 0 \<and>
   row_at (stats_of single_game) ''A'' ''gi_std'' = Num 0"
proof -
  have m: "(''A'', row_at (stats_of single_game) ''A'') \<in> set (rows (stats_of single_game))"
    by (rule example_row_mem) (simp add: example_players)
  have one: "length (filter (\<lambda>ob. Player ob = ''A'') (combined_df single_game)) = 1"
    by (simp add: combined_df_def single_game_def game_1_def)
  show ?thesis
    using single_observation_dispersion [OF stats_of_eq single_game_sorted m one]
      stats_of_eq [of single_game] single_game_sorted m one
    by simp
qed

text \<open>
  The dispersion cells of the written rows are not NaN. On a table of one game both
  players have one observation, the aggregation gives NaN for the variance of gi, and the
  written rows carry 0.
\<close>

theorem single_observation_nan_counterexample:
  "column_cells ''gi_var'' (calculate_statistics (combined_df single_game) gi ''gi'') = [NaN, NaN] \<and>
   column_cells ''gi_std'' (calculate_statistics (combined_df single_game) gi ''gi'') = [NaN, NaN] \<and>
   player_stats example_solver single_game = Inr (stats_of single_game) \<and>
   sort_values_desc ''avg_gi'' (stats_of single_game) (stats_of single_game) \<and>
   keys (stats_of single_game) = [''A'', ''B''] \<and>
   column_cells ''gi_var'' (stats_of single_game) = [Num 0, Num 0] \<and>
   column_cells ''gi_std'' (stats_of single_game) = [Num 0, Num 0]"
proof -
  have pA: "''A'' \<in> players single_game" and pB: "''B'' \<in> players single_game"
    by (simp_all add: example_players)
  have one: "length (pooled single_game ''A'') = 1" "length (pooled single_game ''B'') = 1"
    by (simp_all add: pooled_def combined_df_def single_game_def game_1_def)
  have k: "keys (calculate_statistics (combined_df single_game) gi ''gi'') = [''A'', ''B'']"
    by (simp add: calculate_statistics_def keys_def groupby_def comp_def combined_df_def
        single_game_def game_1_def)
  have c1: "column_cells ''gi_var'' (calculate_statistics (combined_df single_game) gi ''gi'') = [NaN, NaN]"
    using statistics_cells(1) [OF pA, of gi "''gi''"] statistics_cells(1) [OF pB, of gi "''gi''"]
    by (simp add: column_cells_by_keys k dispersion_single [OF one(1)] dispersion_single [OF one(2)])
  have c2: "column_cells ''gi_std'' (calculate_statistics (combined_df single_game) gi ''gi'') = [NaN, NaN]"
    using statistics_cells(2) [OF pA, of gi "''gi''"] statistics_cells(2) [OF pB, of gi "''gi''"]
    by (simp add: column_cells_by_keys k dispersion_single [OF one(1)] dispersion_single [OF one(2)])
  have c3: "column_cells ''gi_var'' (stats_of single_game) = [Num 0, Num 0]"
           "column_cells ''gi_std'' (stats_of single_game) = [Num 0, Num 0]"
    by (simp_all add: column_cells_by_keys distinct_keys_stats_of example_keys row_at_stats_of
        columns_to_include_mem wide_dispersion [OF wide_of_eq pA] wide_dispersion [OF wide_of_eq pB]
        dispersion_single [OF one(1)] dispersion_single [OF one(2)])
  show ?thesis
    using c1 c2 c3 stats_of_eq [of single_game] single_game_sorted example_keys(2) by simp
qed




end
